theory Spec2Isabelle
  imports Main "HOL-Library.Sublist" "HOL-Library.AList"
begin

section \<open>JavaScript strings\<close>

text \<open>
  The services work on JavaScript strings, which are sequences of UTF-16 code units.
  They are modelled as \<open>string\<close> (a \<open>char list\<close>), each \<open>char\<close> standing for
  one code unit in the range 0..255; every literal the parsers look for is ASCII.
  In that range the white space removed by \<open>String.prototype.trim\<close> (and matched by
  \<open>\s\<close>) is TAB, LF, VT, FF, CR, SPACE and NBSP (0xA0), and \<open>toLowerCase\<close> maps
  \<open>A..Z\<close> and the Latin-1 capitals 0xC0..0xDE (except 0xD7) to the code unit 32 above.
\<close>

definition is_ws :: "char \<Rightarrow> bool" where
  "is_ws c = (c \<in> set [CHR 0x09, CHR 0x0A, CHR 0x0B, CHR 0x0C, CHR 0x0D, CHR 0x20, CHR 0xA0])"

definition trim :: "string \<Rightarrow> string" where
  "trim s = rev (dropWhile is_ws (rev (dropWhile is_ws s)))"

text \<open>\<open>s.split(sep)\<close> for a one-character separator: the pieces between the
  separators; the empty string gives one empty piece.\<close>

fun split_on :: "char \<Rightarrow> string \<Rightarrow> string list" where
  "split_on sep [] = [[]]"
| "split_on sep (c # cs) =
     (if c = sep then [] # split_on sep cs
      else (case split_on sep cs of l # ls \<Rightarrow> (c # l) # ls | [] \<Rightarrow> [[c]]))"

definition split_nl :: "string \<Rightarrow> string list" where
  "split_nl s = split_on (CHR 0x0A) s"

definition startsWith :: "string \<Rightarrow> string \<Rightarrow> bool" where
  "startsWith s p = prefix p s"

text \<open>\<open>s.includes(p)\<close>: \<open>p\<close> occurs in \<open>s\<close> as a contiguous substring, compared exactly.\<close>

fun includes_str :: "string \<Rightarrow> string \<Rightarrow> bool" where
  "includes_str [] p = (p = [])"
| "includes_str (c # cs) p = (prefix p (c # cs) \<or> includes_str cs p)"

text \<open>\<open>s.indexOf(p)\<close>: the first position where \<open>p\<close> occurs, or -1.\<close>

fun indexOf :: "string \<Rightarrow> string \<Rightarrow> int" where
  "indexOf [] p = (if p = [] then 0 else - 1)"
| "indexOf (c # cs) p =
     (if prefix p (c # cs) then 0
      else (let k = indexOf cs p in if k < 0 then - 1 else k + 1))"

text \<open>\<open>s.substring(k)\<close>: a negative start counts as 0, a start past the end gives \<open>""\<close>.\<close>

definition substring :: "string \<Rightarrow> int \<Rightarrow> string" where
  "substring s k = drop (nat k) s"

definition lower_char :: "char \<Rightarrow> char" where
  "lower_char c =
     (let n = (of_char c :: nat)
      in if (65 \<le> n \<and> n \<le> 90) \<or> (192 \<le> n \<and> n \<le> 222 \<and> n \<noteq> 215)
         then char_of (n + 32) else c)"

definition toLowerCase :: "string \<Rightarrow> string" where
  "toLowerCase s = map lower_char s"

definition is_upper :: "char \<Rightarrow> bool" where
  "is_upper c = (65 \<le> (of_char c :: nat) \<and> (of_char c :: nat) \<le> 90)"

text \<open>The regular expression \<open>/^[A-Z]+:/\<close>: one or more capitals \<open>A..Z\<close> at the very
  start, then a colon.\<close>

definition matches_label :: "string \<Rightarrow> bool" where
  "matches_label s =
     (takeWhile is_upper s \<noteq> [] \<and>
      (case dropWhile is_upper s of [] \<Rightarrow> False | c # _ \<Rightarrow> c = CHR '':''))"

section \<open>HumanLoopService: the response parser\<close>

text \<open>
  \<open>extractStructuredContent(text, prefix)\<close> walks the lines of the text with the two loop
  variables \<open>content\<close> and \<open>capturing\<close>. A line whose trimmed form starts with the prefix
  (re)starts the capture with what follows the prefix on that line; while capturing, a line
  whose trimmed form matches \<open>/^[A-Z]+:/\<close> ends the loop (\<open>break\<close>), and any other
  non-blank line is appended after one space. The result is trimmed.
\<close>

fun extract_loop :: "string \<Rightarrow> string list \<Rightarrow> string \<Rightarrow> bool \<Rightarrow> string" where
  "extract_loop pre [] content capturing = content"
| "extract_loop pre (line # rest) content capturing =
     (if startsWith (trim line) pre then
        extract_loop pre rest
          (trim (substring line (indexOf line pre + int (length pre)))) True
      else if capturing \<and> matches_label (trim line) then content
      else if capturing \<and> trim line \<noteq> [] then
        extract_loop pre rest (content @ '' '' @ trim line) capturing
      else extract_loop pre rest content capturing)"

definition extractStructuredContent :: "string \<Rightarrow> string \<Rightarrow> string" where
  "extractStructuredContent text pre = trim (extract_loop pre (split_nl text) [] False)"

text \<open>
  The object returned by \<open>parseHumanResponse\<close>. The fields \<open>feedback\<close> and
  \<open>approved\<close> exist only on an approval, so they are optional here.
\<close>

record parsed_response =
  rtype :: string
  content :: string
  feedback :: "string option"
  approved :: "bool option"
  raw :: string

definition parseHumanResponse :: "string \<Rightarrow> parsed_response" where
  "parseHumanResponse responseText =
     (let text = trim responseText in
      if includes_str text ''DECISION:'' then
        \<lparr>rtype = ''decision'', content = extractStructuredContent text ''DECISION:'',
         feedback = None, approved = None, raw = text\<rparr>
      else if includes_str text ''CODE:'' then
        \<lparr>rtype = ''code'', content = extractStructuredContent text ''CODE:'',
         feedback = None, approved = None, raw = text\<rparr>
      else if includes_str text ''GUIDANCE:'' then
        \<lparr>rtype = ''guidance'', content = extractStructuredContent text ''GUIDANCE:'',
         feedback = None, approved = None, raw = text\<rparr>
      else if includes_str text ''APPROVAL:'' then
        (let approval = extractStructuredContent text ''APPROVAL:'';
             fb = extractStructuredContent text ''FEEDBACK:''
         in \<lparr>rtype = ''approval'', content = approval, feedback = Some fb,
             approved = Some (includes_str (toLowerCase approval) ''yes''), raw = text\<rparr>)
      else if includes_str text ''QUESTION:'' then
        \<lparr>rtype = ''question'', content = extractStructuredContent text ''QUESTION:'',
         feedback = None, approved = None, raw = text\<rparr>
      else
        \<lparr>rtype = ''general'', content = text, feedback = None, approved = None, raw = text\<rparr>)"

text \<open>
  Notions used to state the parser's properties. \<open>committed_prefix\<close> is the first prefix,
  in the order of the \<open>if\<close> chain, that occurs in the text; \<open>join_sp\<close> joins pieces with
  single spaces; \<open>contains_yes\<close> looks for the letters y, e, s in either case, without going
  through \<open>toLowerCase\<close>.
\<close>

definition prefix_table :: "(string \<times> string) list" where
  "prefix_table =
     [(''DECISION:'', ''decision''), (''CODE:'', ''code''), (''GUIDANCE:'', ''guidance''),
      (''APPROVAL:'', ''approval''), (''QUESTION:'', ''question'')]"

definition committed_prefix :: "string \<Rightarrow> (string \<times> string) option" where
  "committed_prefix t = find (\<lambda>(P, ty). includes_str t P) prefix_table"


fun join_sp :: "string list \<Rightarrow> string" where
  "join_sp [] = []"
| "join_sp [p] = p"
| "join_sp (p # q # ps) = p @ '' '' @ join_sp (q # ps)"

fun yes_at :: "string \<Rightarrow> bool" where
  "yes_at (y # e # s # rest) =
     ((y = CHR ''y'' \<or> y = CHR ''Y'') \<and> (e = CHR ''e'' \<or> e = CHR ''E'') \<and>
      (s = CHR ''s'' \<or> s = CHR ''S''))"
| "yes_at rest = False"

fun contains_yes :: "string \<Rightarrow> bool" where
  "contains_yes [] = False"
| "contains_yes (c # cs) = (yes_at (c # cs) \<or> contains_yes cs)"

text \<open>A string is \<open>trimmed\<close> when \<open>trim\<close> has nothing to remove; \<open>appended\<close> is what the
  capture loop adds for the lines after the one with the prefix.\<close>

definition trimmed :: "string \<Rightarrow> bool" where
  "trimmed s = (s = [] \<or> (\<not> is_ws (hd s) \<and> \<not> is_ws (last s)))"

definition appended :: "string list \<Rightarrow> string" where
  "appended body = concat (map (\<lambda>l. '' '' @ trim l) (filter (\<lambda>l. trim l \<noteq> []) body))"


section \<open>Data of the services\<close>

text \<open>
  Thrown JavaScript exceptions are values: \<open>Error\<close> for \<open>throw new Error(msg)\<close> and for a
  failure reported by an external service, \<open>TypeError\<close> for a call of a method the object
  does not have or a property read on \<open>undefined\<close>. A property that may be \<open>undefined\<close> is
  an \<open>option\<close>.
\<close>

datatype error = Error string | TypeError string

record issue =
  issue_number :: int

record repository_info =
  repo_url :: "string option"
  repo_branch :: "string option"
  repo_owner :: "string option"
  repo_name :: "string option"

text \<open>A task: \<open>metadata_repository\<close> is \<open>task.metadata.repository\<close> (owner and name),
  \<open>sourceIssue\<close> is \<open>task.sourceIssue.number\<close>, \<open>pullRequest\<close> is
  \<open>task.pullRequest.number\<close>.\<close>

record task =
  task_id :: string
  description :: string
  additionalContext :: "string option"
  repository :: "repository_info option"
  metadata_repository :: "(string option \<times> string option) option"
  sourceIssue :: "int option"
  task_branch :: "string option"
  pullRequest :: "int option"

text \<open>The \<open>context\<close> argument of \<open>requestHumanInput\<close>. Its remaining properties
  (situation, progress, files, ...) only feed the text of the issue.\<close>

record hctx =
  ctx_agentId :: "string option"
  ctx_type :: "string option"
  ctx_question :: "string option"
  ctx_options :: "string list option"
  ctx_urgency :: "string option"
  ctx_repository :: "repository_info option"
  ctx_metadata_repository :: "(string option \<times> string option) option"

record pending_request =
  req_id :: string
  req_taskId :: string
  req_agentId :: "string option"
  req_issue :: issue
  req_ctx :: hctx
  createdAt :: nat
  req_status :: string
  req_response :: "parsed_response option"
  respondedAt :: "nat option"
  cancelledAt :: "nat option"
  cancellationReason :: "string option"

record plan =
  approach :: string
  files :: string
  steps :: string
  testing :: string
  risks :: string
  plan_outcome :: string
  fullPlan :: string

text \<open>What \<open>agentService.executeWithImplementation\<close> returns, as far as the workflow reads
  it (it sets neither \<open>branch\<close> nor \<open>changes\<close>), the result of \<open>npm test\<close> and a pull
  request of the Git host.\<close>

record implementation =
  summary :: string
  modifiedFiles :: "string list"

record test_results =
  exitCode :: "int option"
  test_output :: "string option"
  test_error :: "string option"

record pull_request =
  pr_number :: int
  pr_title :: string
  html_url :: string

record review_comment =
  rc_body :: string
  rc_user :: string

record history_entry =
  role :: string
  entry_content :: string
  timestamp :: nat
  isHumanResponse :: bool

record verification =
  v_approved :: bool
  v_feedback :: string
  instructions :: string

text \<open>An agent of \<open>AgentService.activeAgents\<close>. \<open>clarificationAnswers\<close> keeps the
  text that \<open>parseAnswers\<close> is applied to.\<close>

record agent =
  agent_id :: string
  agent_type :: string
  agent_status :: string
  conversationHistory :: "history_entry list"
  clarificationAnswers :: "string option"
  verificationResponse :: "verification option"
  implementationPlan :: "plan option"
  currentTask :: "task option"
  workingDirectory :: "string option"

text \<open>The object \<open>AgentService.processHumanResponse\<close> receives.\<close>

record human_response =
  hr_type :: string
  hr_content :: string
  hr_taskId :: string
  hr_issueNumber :: "int option"
  hr_reviewComments :: "review_comment list option"

text \<open>The argument of \<open>HumanLoopService.processHumanResponse\<close>.\<close>

record response_data =
  rd_taskId :: string
  rd_agentId :: "string option"
  rd_issueNumber :: "int option"
  rd_comment_body :: string
  rd_repository :: "(string option \<times> string option) option"

section \<open>External capabilities\<close>

text \<open>
  The texts sent out are fixed templates filled with values of the task at hand; a
  \<open>prompt\<close> or a \<open>message\<close> names the template and carries the values it is filled with.
\<close>

datatype prompt =
    AnalysisPrompt string "string option"
  | PlanningPrompt string "string option" "string option"
  | ImplementationPrompt string string
  | FixPrompt "string option" "string option"
  | FeedbackPrompt "review_comment list"
  | RevisionPrompt "string option" string

datatype message =
    HumanInputRequest task hctx
  | Confirmation parsed_response
  | Cancellation string nat
  | ClarificationRequest task "string list"
  | VerificationRequest task plan
  | CommitMessage task implementation
  | FixCommitMessage
  | PullRequestText task implementation
  | PullRequestCreated pull_request string implementation
  | ReviewReply

datatype git_op =
    CreateBranch "string option" string string
  | Checkout "string option" "string option"
  | AddAll "string option"
  | Commit "string option" message
  | Push "string option" "string option"

datatype status_metadata =
    ClarificationMeta int "string list"
  | VerificationMeta int plan
  | ReviewMeta int string

text \<open>One constructor per outgoing call: \<open>mcpClient.createGiteaIssue\<close>,
  \<open>mcpClient.addGiteaComment\<close>, the language model behind \<open>queryAgent\<close>,
  \<open>agentService.executeWithImplementation\<close>, \<open>giteaClient.createIssue\<close>, the
  \<open>PATCH /tasks/:id\<close> of \<open>updateTaskStatus\<close>, \<open>mcpClient.gitOperation\<close>,
  \<open>mcpClient.executeCommand\<close>, \<open>giteaClient.createPullRequest\<close>,
  \<open>giteaClient.createIssueComment\<close> and \<open>giteaClient.createPullRequestComment\<close>.\<close>

datatype call =
    CreateGiteaIssue "string option" "string option" message
  | AddGiteaComment "string option" "string option" "int option" message
  | QueryAgent string "history_entry list" prompt
  | ExecuteWithImplementation string prompt
  | GiteaCreateIssue "string option" "string option" message
  | UpdateTaskStatus string string status_metadata
  | GitOperation git_op
  | ExecuteCommand string "string option"
  | CreatePullRequest "string option" "string option" message string string
  | CreateIssueComment "string option" "string option" int message
  | CreatePullRequestComment "string option" "string option" int message

text \<open>
  The outside world answers a call with a value or an error; the answer may depend on
  everything that was called before. Nothing else is assumed about it.
\<close>

record env =
  issue_reply :: "call list \<Rightarrow> call \<Rightarrow> error + issue"
  unit_reply :: "call list \<Rightarrow> call \<Rightarrow> error + unit"
  text_reply :: "call list \<Rightarrow> call \<Rightarrow> error + string"
  exec_reply :: "call list \<Rightarrow> call \<Rightarrow> error + test_results"
  impl_reply :: "call list \<Rightarrow> call \<Rightarrow> error + implementation"
  pull_reply :: "call list \<Rightarrow> call \<Rightarrow> error + pull_request"

text \<open>
  The state shared by \<open>AgentService\<close> and \<open>DevelopmentWorkflow\<close>: the agents and the
  calls made so far. \<open>HumanLoopService\<close> adds its \<open>pendingRequests\<close>, a JavaScript \<open>Map\<close>,
  kept as an association list in insertion order.
\<close>

record sys =
  activeAgents :: "string \<rightharpoonup> agent"
  trace :: "call list"

record hl_state =
  pendingRequests :: "(string \<times> pending_request) list"
  sys :: sys

text \<open>Sequencing of steps that may throw: a step maps a state to a result and the state
  it leaves behind, also when it throws.\<close>

definition and_then ::
  "('s \<Rightarrow> (error + 'a) \<times> 's) \<Rightarrow> ('a \<Rightarrow> 's \<Rightarrow> (error + 'b) \<times> 's) \<Rightarrow> 's \<Rightarrow> (error + 'b) \<times> 's" where
  "and_then m f s = (case m s of (Inl e, s') \<Rightarrow> (Inl e, s') | (Inr a, s') \<Rightarrow> f a s')"

definition return :: "'a \<Rightarrow> 's \<Rightarrow> (error + 'a) \<times> 's" where
  "return a s = (Inr a, s)"

definition throw :: "error \<Rightarrow> 's \<Rightarrow> (error + 'a) \<times> 's" where
  "throw e s = (Inl e, s)"

definition lift :: "error + 'a \<Rightarrow> 's \<Rightarrow> (error + 'a) \<times> 's" where
  "lift r s = (r, s)"

text \<open>\<open>try { m } catch (error) { h }\<close>\<close>

definition try_catch ::
  "('s \<Rightarrow> (error + 'a) \<times> 's) \<Rightarrow> (error \<Rightarrow> 's \<Rightarrow> (error + 'a) \<times> 's) \<Rightarrow> 's \<Rightarrow> (error + 'a) \<times> 's" where
  "try_catch m h s = (case m s of (Inl e, s') \<Rightarrow> h e s' | (Inr a, s') \<Rightarrow> (Inr a, s'))"

definition in_sys :: "(sys \<Rightarrow> (error + 'a) \<times> sys) \<Rightarrow> hl_state \<Rightarrow> (error + 'a) \<times> hl_state" where
  "in_sys m w = (case m (sys w) of (r, s') \<Rightarrow> (r, w\<lparr>sys := s'\<rparr>))"

definition record_call :: "call \<Rightarrow> sys \<Rightarrow> sys" where
  "record_call c s = s\<lparr>trace := trace s @ [c]\<rparr>"

definition call_issue :: "env \<Rightarrow> call \<Rightarrow> sys \<Rightarrow> (error + issue) \<times> sys" where
  "call_issue env c s = (issue_reply env (trace s) c, record_call c s)"

definition call_unit :: "env \<Rightarrow> call \<Rightarrow> sys \<Rightarrow> (error + unit) \<times> sys" where
  "call_unit env c s = (unit_reply env (trace s) c, record_call c s)"

definition call_text :: "env \<Rightarrow> call \<Rightarrow> sys \<Rightarrow> (error + string) \<times> sys" where
  "call_text env c s = (text_reply env (trace s) c, record_call c s)"


definition call_impl :: "env \<Rightarrow> call \<Rightarrow> sys \<Rightarrow> (error + implementation) \<times> sys" where
  "call_impl env c s = (impl_reply env (trace s) c, record_call c s)"


text \<open>Decimal digits of a number, as a template literal prints \<open>Date.now()\<close>.\<close>

fun dec :: "nat \<Rightarrow> string" where
  "dec n = (if n < 10 then [''0123456789'' ! n]
            else dec (n div 10) @ [''0123456789'' ! (n mod 10)])"

declare dec.simps [simp del]


section \<open>DevelopmentWorkflow\<close>

text \<open>\<open>agentService.queryAgent\<close>: only the agent types \<open>claude\<close> and \<open>openai\<close> reach a
  language model.\<close>

definition queryAgent :: "env \<Rightarrow> agent \<Rightarrow> prompt \<Rightarrow> sys \<Rightarrow> (error + string) \<times> sys" where
  "queryAgent env agent p =
     (if agent_type agent = ''claude'' \<or> agent_type agent = ''openai''
      then call_text env (QueryAgent (agent_id agent) (conversationHistory agent) p)
      else throw (Error (''Unknown agent type: '' @ agent_type agent)))"


text \<open>Reading a property of \<open>task.repository\<close> throws when the task has no repository.\<close>

definition repository_of :: "task \<Rightarrow> 's \<Rightarrow> (error + repository_info) \<times> 's" where
  "repository_of task =
     (case repository task of
        None \<Rightarrow> throw (TypeError ''Cannot read properties of undefined'')
      | Some r \<Rightarrow> return r)"

definition is_digit :: "char \<Rightarrow> bool" where
  "is_digit c = (48 \<le> (of_char c :: nat) \<and> (of_char c :: nat) \<le> 57)"

text \<open>\<open>\d+\.\<close> at the start of a string.\<close>

definition digits_dot :: "string \<Rightarrow> bool" where
  "digits_dot s =
     (takeWhile is_digit s \<noteq> [] \<and>
      (case dropWhile is_digit s of [] \<Rightarrow> False | c # _ \<Rightarrow> c = CHR ''.''))"




text \<open>
  \<open>extractSection\<close> matches
  \<open>(?:NAME|\d+\.).*?:(.*?)(?=\n\d+\.|\n[A-Z]|$)\<close> with the flags \<open>i\<close> and \<open>s\<close>: the
  leftmost place where the section name (in any letter case) or a number with a dot stands
  and a colon follows somewhere; the group is what follows the first such colon, up to the
  first line feed that is followed by a numbered item or by a letter, or to the end.
\<close>

definition upper_ascii :: "char \<Rightarrow> char" where
  "upper_ascii c =
     (let n = (of_char c :: nat) in if 97 \<le> n \<and> n \<le> 122 then char_of (n - 32) else c)"

definition ci_prefix :: "string \<Rightarrow> string \<Rightarrow> bool" where
  "ci_prefix p s = prefix (map upper_ascii p) (map upper_ascii s)"

definition is_letter :: "char \<Rightarrow> bool" where
  "is_letter c = is_upper (upper_ascii c)"

definition section_end :: "string \<Rightarrow> bool" where
  "section_end r =
     (case r of
        [] \<Rightarrow> True
      | c # r' \<Rightarrow> c = CHR 0x0A \<and> (digits_dot r' \<or> (case r' of [] \<Rightarrow> False | d # _ \<Rightarrow> is_letter d)))"

fun lazy_until :: "(string \<Rightarrow> bool) \<Rightarrow> string \<Rightarrow> string" where
  "lazy_until stop [] = []"
| "lazy_until stop (c # cs) = (if stop (c # cs) then [] else c # lazy_until stop cs)"

definition after_colon :: "string \<Rightarrow> string option" where
  "after_colon r =
     (case dropWhile (\<lambda>c. c \<noteq> CHR '':'') r of [] \<Rightarrow> None | _ # rest \<Rightarrow> Some rest)"

definition section_at :: "string \<Rightarrow> string \<Rightarrow> string option" where
  "section_at sectionName s =
     (case (if ci_prefix sectionName s then after_colon (drop (length sectionName) s) else None) of
        Some r \<Rightarrow> Some (lazy_until section_end r)
      | None \<Rightarrow>
          (if digits_dot s
           then map_option (lazy_until section_end) (after_colon (tl (dropWhile is_digit s)))
           else None))"

text \<open>\<open>text.match(regex)\<close> without the flag \<open>g\<close>: the leftmost match.\<close>

fun regex_search :: "(string \<Rightarrow> 'a option) \<Rightarrow> string \<Rightarrow> 'a option" where
  "regex_search m [] = m []"
| "regex_search m (c # cs) =
     (case m (c # cs) of Some x \<Rightarrow> Some x | None \<Rightarrow> regex_search m cs)"

definition extractSection :: "string \<Rightarrow> string \<Rightarrow> string" where
  "extractSection text sectionName =
     (case regex_search (section_at sectionName) text of
        Some g \<Rightarrow> trim g
      | None \<Rightarrow> [])"

definition parseImplementationPlan :: "string \<Rightarrow> plan" where
  "parseImplementationPlan resp =
     \<lparr>approach = extractSection resp ''approach'',
      files = extractSection resp ''files'',
      steps = extractSection resp ''steps'',
      testing = extractSection resp ''testing'',
      risks = extractSection resp ''risks'',
      plan_outcome = extractSection resp ''outcome'',
      fullPlan = resp\<rparr>"











definition commitChanges :: "env \<Rightarrow> task \<Rightarrow> implementation \<Rightarrow> sys \<Rightarrow> (error + unit) \<times> sys" where
  "commitChanges env task impl =
     and_then (repository_of task) (\<lambda>r.
     and_then (call_unit env (GitOperation (AddAll (repo_url r)))) (\<lambda>_.
     and_then (call_unit env (GitOperation (Commit (repo_url r) (CommitMessage task impl)))) (\<lambda>_.
     call_unit env (GitOperation (Push (repo_url r) None)))))"









fun respondToReviewComments ::
  "env \<Rightarrow> task \<Rightarrow> review_comment list \<Rightarrow> sys \<Rightarrow> (error + unit) \<times> sys" where
  "respondToReviewComments env task [] = return ()"
| "respondToReviewComments env task (c # cs) =
     and_then (repository_of task) (\<lambda>r.
     and_then (case pullRequest task of
                 None \<Rightarrow> throw (TypeError ''Cannot read properties of undefined'')
               | Some n \<Rightarrow>
                   call_unit env (CreatePullRequestComment (repo_owner r) (repo_name r) n ReviewReply))
       (\<lambda>_. respondToReviewComments env task cs))"

definition handleReviewFeedback ::
  "env \<Rightarrow> agent \<Rightarrow> task option \<Rightarrow> review_comment list option \<Rightarrow> sys
     \<Rightarrow> (error + implementation) \<times> sys" where
  "handleReviewFeedback env agent task reviewComments =
     (case task of
        None \<Rightarrow> throw (TypeError ''Cannot read properties of undefined'')
      | Some t \<Rightarrow>
          (case reviewComments of
             None \<Rightarrow> throw (TypeError ''Cannot read properties of undefined'')
           | Some rcs \<Rightarrow>
               and_then (repository_of t) (\<lambda>r.
               and_then (call_impl env
                           (ExecuteWithImplementation (agent_id agent) (FeedbackPrompt rcs)))
                 (\<lambda>resp.
               and_then (commitChanges env t (resp\<lparr>summary := ''Address review feedback''\<rparr>))
                 (\<lambda>_.
               and_then (respondToReviewComments env t rcs) (\<lambda>_. return resp))))))"


section \<open>AgentService: acting on a human response\<close>

text \<open>
  \<open>parseVerification\<close> uses three regular expressions. \<open>/APPROVAL:\s*(Yes|No)/i\<close> takes
  the word after the leftmost \<open>APPROVAL:\<close> (in any letter case) that is followed by
  \<open>yes\<close> or \<open>no\<close>; \<open>/FEEDBACK:\s*(.+?)(?=PROCEED:|$)/is\<close> takes at least one character
  after \<open>FEEDBACK:\<close>, up to the next \<open>PROCEED:\<close> or the end;
  \<open>/PROCEED:\s*(.+?)$/is\<close> takes everything up to the end. Where only white space
  follows the keyword, \<open>\s*\<close> gives its last character back to the group.
\<close>

definition approval_at :: "string \<Rightarrow> string option" where
  "approval_at s =
     (if ci_prefix ''APPROVAL:'' s then
        (let r = dropWhile is_ws (drop 9 s) in
         if ci_prefix ''Yes'' r then Some (take 3 r)
         else if ci_prefix ''No'' r then Some (take 2 r)
         else None)
      else None)"

definition group_after :: "(string \<Rightarrow> bool) \<Rightarrow> string \<Rightarrow> string option" where
  "group_after stop r =
     (case dropWhile is_ws r of
        c # cs \<Rightarrow> Some (c # lazy_until stop cs)
      | [] \<Rightarrow> (if r = [] then None else Some [last r]))"

definition feedback_at :: "string \<Rightarrow> string option" where
  "feedback_at s =
     (if ci_prefix ''FEEDBACK:'' s
      then group_after (\<lambda>x. ci_prefix ''PROCEED:'' x \<or> x = []) (drop 9 s)
      else None)"

definition proceed_at :: "string \<Rightarrow> string option" where
  "proceed_at s =
     (if ci_prefix ''PROCEED:'' s then group_after (\<lambda>x. x = []) (drop 8 s) else None)"

definition parseVerification :: "string \<Rightarrow> verification" where
  "parseVerification c =
     \<lparr>v_approved = (case regex_search approval_at c of
                      Some g \<Rightarrow> toLowerCase g = ''yes''
                    | None \<Rightarrow> False),
      v_feedback = (case regex_search feedback_at c of Some g \<Rightarrow> trim g | None \<Rightarrow> []),
      instructions = (case regex_search proceed_at c of Some g \<Rightarrow> trim g | None \<Rightarrow> [])\<rparr>"

text \<open>An assignment to a property of the agent object changes the agent held in
  \<open>activeAgents\<close>.\<close>

definition store_agent :: "string \<Rightarrow> agent \<Rightarrow> sys \<Rightarrow> sys" where
  "store_agent aid a s = s\<lparr>activeAgents := (activeAgents s)(aid \<mapsto> a)\<rparr>"

text \<open>
  \<open>processClarificationResponse\<close> stores the answers and then calls
  \<open>developmentWorkflow.continueAfterClarification\<close>; \<open>processVerificationResponse\<close>
  stores the verdict and, on approval, calls \<open>developmentWorkflow.continueAfterVerification\<close>.
  The class \<open>DevelopmentWorkflow\<close> has neither method, so both calls throw. On rejection
  \<open>reviseImplementationPlan\<close> asks the agent for a revised plan and then calls
  \<open>this.parseImplementationPlan\<close>, which \<open>AgentService\<close> does not have.
\<close>

definition processClarificationResponse ::
  "string \<Rightarrow> agent \<Rightarrow> human_response \<Rightarrow> sys \<Rightarrow> (error + agent) \<times> sys" where
  "processClarificationResponse aid agent resp s =
     (let agent1 = agent\<lparr>clarificationAnswers := Some (hr_content resp)\<rparr> in
      throw (TypeError ''developmentWorkflow.continueAfterClarification is not a function'')
        (store_agent aid agent1 s))"

definition reviseImplementationPlan ::
  "env \<Rightarrow> agent \<Rightarrow> string \<Rightarrow> sys \<Rightarrow> (error + agent) \<times> sys" where
  "reviseImplementationPlan env agent fb =
     and_then (queryAgent env agent
                 (RevisionPrompt (map_option fullPlan (implementationPlan agent)) fb))
       (\<lambda>revisedPlan. throw (TypeError ''this.parseImplementationPlan is not a function''))"

definition processVerificationResponse ::
  "env \<Rightarrow> string \<Rightarrow> agent \<Rightarrow> human_response \<Rightarrow> sys \<Rightarrow> (error + agent) \<times> sys" where
  "processVerificationResponse env aid agent resp s =
     (let v = parseVerification (hr_content resp);
          agent1 = agent\<lparr>verificationResponse := Some v\<rparr>;
          s1 = store_agent aid agent1 s
      in if v_approved v then
           throw (TypeError ''developmentWorkflow.continueAfterVerification is not a function'') s1
         else reviseImplementationPlan env agent1 (v_feedback v) s1)"

definition processReviewFeedback ::
  "env \<Rightarrow> agent \<Rightarrow> human_response \<Rightarrow> sys \<Rightarrow> (error + agent) \<times> sys" where
  "processReviewFeedback env agent resp =
     and_then (handleReviewFeedback env agent (currentTask agent) (hr_reviewComments resp))
       (\<lambda>_. return agent)"

definition AgentService_processHumanResponse ::
  "env \<Rightarrow> nat \<Rightarrow> string option \<Rightarrow> human_response \<Rightarrow> sys \<Rightarrow> (error + agent) \<times> sys" where
  "AgentService_processHumanResponse env now agentId resp s =
     (case (case agentId of None \<Rightarrow> None | Some aid \<Rightarrow> map_option (Pair aid) (activeAgents s aid)) of
        None \<Rightarrow>
          throw (Error (''Agent not found: '' @ (case agentId of None \<Rightarrow> ''undefined'' | Some aid \<Rightarrow> aid))) s
      | Some (aid, agent) \<Rightarrow>
          (let agent1 = agent\<lparr>conversationHistory := conversationHistory agent @
                 [\<lparr>role = ''user'', entry_content = ''Human response: '' @ hr_content resp,
                   timestamp = now, isHumanResponse = True\<rparr>]\<rparr>;
               s1 = store_agent aid agent1 s
           in and_then
                (if hr_type resp = ''clarification'' then
                   processClarificationResponse aid agent1 resp
                 else if hr_type resp = ''verification'' then
                   processVerificationResponse env aid agent1 resp
                 else if hr_type resp = ''review_feedback'' then
                   processReviewFeedback env agent1 resp
                 else return agent1)
                (\<lambda>agent2 s2.
                   (let agent3 = agent2\<lparr>agent_status := ''working''\<rparr>
                    in (Inr agent3, store_agent aid agent3 s2)))
                s1))"

section \<open>HumanLoopService: pending requests\<close>

text \<open>\<open>s.replace(p, '')\<close> for a string \<open>p\<close>: the first occurrence is removed.\<close>

fun remove_first :: "string \<Rightarrow> string \<Rightarrow> string" where
  "remove_first p [] = []"
| "remove_first p (c # cs) =
     (if prefix p (c # cs) then drop (length p) (c # cs) else c # remove_first p cs)"

text \<open>
  \<open>extractRepositoryInfo\<close> reads \<open>task.repository.url\<close> and \<open>task.metadata.repository\<close>;
  it is also called on an object built from the same two properties of a request's context.
  An empty URL counts as absent; \<open>urlParts[urlParts.length - 2]\<close> is \<open>undefined\<close> when the
  URL has no slash.
\<close>

definition extractRepositoryInfo ::
  "repository_info option \<Rightarrow> (string option \<times> string option) option
     \<Rightarrow> error + (string option \<times> string option)" where
  "extractRepositoryInfo repo meta =
     (case (case repo of None \<Rightarrow> None | Some r \<Rightarrow> repo_url r) of
        Some u \<Rightarrow>
          (if u \<noteq> [] then
             (let urlParts = split_on (CHR ''/'') (remove_first ''.git'' u);
                  n = length urlParts
              in Inr (if 2 \<le> n then Some (urlParts ! (n - 2)) else None, Some (last urlParts)))
           else (case meta of
                   Some (ow, nm) \<Rightarrow> Inr (ow, nm)
                 | None \<Rightarrow> Inl (Error ''Unable to extract repository information from task'')))
      | None \<Rightarrow>
          (case meta of
             Some (ow, nm) \<Rightarrow> Inr (ow, nm)
           | None \<Rightarrow> Inl (Error ''Unable to extract repository information from task'')))"

definition createHumanInputIssue :: "env \<Rightarrow> task \<Rightarrow> hctx \<Rightarrow> sys \<Rightarrow> (error + issue) \<times> sys" where
  "createHumanInputIssue env task ctx =
     and_then (lift (extractRepositoryInfo (repository task) (metadata_repository task)))
       (\<lambda>(ow, nm). call_issue env (CreateGiteaIssue ow nm (HumanInputRequest task ctx)))"

text \<open>
  \<open>requestHumanInput\<close> creates the issue and then stores a new request under the key
  \<open>`${task.id}_${Date.now()}`\<close>. It does not look at the requests already stored.
\<close>

definition requestHumanInput ::
  "env \<Rightarrow> nat \<Rightarrow> task \<Rightarrow> hctx \<Rightarrow> hl_state \<Rightarrow> (error + issue) \<times> hl_state" where
  "requestHumanInput env now task ctx =
     and_then (in_sys (createHumanInputIssue env task ctx))
       (\<lambda>iss w.
          (let requestId = task_id task @ ''_'' @ dec now
           in (Inr iss,
               w\<lparr>pendingRequests :=
                    AList.update requestId
                      \<lparr>req_id = requestId, req_taskId = task_id task,
                       req_agentId = ctx_agentId ctx, req_issue = iss, req_ctx = ctx,
                       createdAt = now, req_status = ''pending'', req_response = None,
                       respondedAt = None, cancelledAt = None, cancellationReason = None\<rparr>
                      (pendingRequests w)\<rparr>)))"

text \<open>\<open>findPendingRequest\<close>: the first request, in the order of the map, of the task and
  agent whose status is \<open>pending\<close>; here together with its key.\<close>

definition findPendingRequest ::
  "(string \<times> pending_request) list \<Rightarrow> string \<Rightarrow> string option
     \<Rightarrow> (string \<times> pending_request) option" where
  "findPendingRequest reqs taskId agentId =
     find (\<lambda>(requestId, request).
             req_taskId request = taskId \<and> req_agentId request = agentId \<and>
             req_status request = ''pending'') reqs"

text \<open>\<open>addConfirmationComment\<close> catches whatever goes wrong, also the read of
  \<open>repository.owner\<close> when no repository was passed.\<close>

definition addConfirmationComment ::
  "env \<Rightarrow> (string option \<times> string option) option \<Rightarrow> int option \<Rightarrow> parsed_response
     \<Rightarrow> sys \<Rightarrow> (error + unit) \<times> sys" where
  "addConfirmationComment env repo issueNumber parsedResponse =
     try_catch
       (case repo of
          None \<Rightarrow> throw (TypeError ''Cannot read properties of undefined'')
        | Some (ow, nm) \<Rightarrow>
            call_unit env (AddGiteaComment ow nm issueNumber (Confirmation parsedResponse)))
       (\<lambda>e. return ())"

text \<open>
  \<open>processHumanResponse\<close> of the human-loop service. With no pending request it returns
  \<open>null\<close> (\<open>None\<close>). Otherwise it parses the comment, marks the request as responded, hands
  the parsed type and content to \<open>agentService.processHumanResponse\<close>, posts the
  confirmation and deletes the request; an exception of the agent service leaves the
  request in the map, marked as responded.
\<close>

definition processHumanResponse ::
  "env \<Rightarrow> nat \<Rightarrow> response_data \<Rightarrow> hl_state \<Rightarrow> (error + parsed_response option) \<times> hl_state" where
  "processHumanResponse env now rd w =
     (case findPendingRequest (pendingRequests w) (rd_taskId rd) (rd_agentId rd) of
        None \<Rightarrow> (Inr None, w)
      | Some (requestId, pendingRequest) \<Rightarrow>
          (let parsedResponse = parseHumanResponse (rd_comment_body rd);
               responded = pendingRequest\<lparr>req_status := ''responded'',
                             req_response := Some parsedResponse, respondedAt := Some now\<rparr>;
               w1 = w\<lparr>pendingRequests := AList.update requestId responded (pendingRequests w)\<rparr>
           in and_then
                (in_sys (AgentService_processHumanResponse env now (rd_agentId rd)
                   \<lparr>hr_type = rtype parsedResponse, hr_content = content parsedResponse,
                    hr_taskId = rd_taskId rd, hr_issueNumber = rd_issueNumber rd,
                    hr_reviewComments = None\<rparr>))
                (\<lambda>_. and_then
                   (in_sys (addConfirmationComment env (rd_repository rd) (rd_issueNumber rd)
                      parsedResponse))
                   (\<lambda>_ w3. (Inr (Some parsedResponse),
                      w3\<lparr>pendingRequests := AList.delete (req_id responded) (pendingRequests w3)\<rparr>)))
                w1))"




section \<open>GiteaClient: the comment parser\<close>

record gitea_comment =
  gc_body :: string
  gc_login :: string
  gc_created_at :: string

record gitea_response =
  g_type :: string
  g_content :: string
  g_approved :: "bool option"
  g_author :: string
  g_timestamp :: string

definition parse_comment :: "gitea_comment \<Rightarrow> gitea_response" where
  "parse_comment c =
     (let body = trim (gc_body c) in
      if startsWith body ''DECISION:'' then
        \<lparr>g_type = ''decision'', g_content = trim (substring body 9), g_approved = None,
         g_author = gc_login c, g_timestamp = gc_created_at c\<rparr>
      else if startsWith body ''CODE:'' then
        \<lparr>g_type = ''code'', g_content = trim (substring body 5), g_approved = None,
         g_author = gc_login c, g_timestamp = gc_created_at c\<rparr>
      else if startsWith body ''GUIDANCE:'' then
        \<lparr>g_type = ''guidance'', g_content = trim (substring body 9), g_approved = None,
         g_author = gc_login c, g_timestamp = gc_created_at c\<rparr>
      else if startsWith body ''APPROVAL:'' then
        (let approval = trim (substring body 9) in
         \<lparr>g_type = ''approval'', g_content = approval,
          g_approved = Some (includes_str (toLowerCase approval) ''yes''),
          g_author = gc_login c, g_timestamp = gc_created_at c\<rparr>)
      else
        \<lparr>g_type = ''general'', g_content = body, g_approved = None,
         g_author = gc_login c, g_timestamp = gc_created_at c\<rparr>)"

definition GiteaClient_parseHumanResponse :: "gitea_comment list \<Rightarrow> gitea_response list" where
  "GiteaClient_parseHumanResponse comments = map parse_comment comments"

text \<open>The prefixes \<open>GiteaClient.parseHumanResponse\<close> knows, in the order it tests them.\<close>

definition leading_prefixes :: "(string \<times> string) list" where
  "leading_prefixes =
     [(''DECISION:'', ''decision''), (''CODE:'', ''code''), (''GUIDANCE:'', ''guidance''),
      (''APPROVAL:'', ''approval'')]"


section \<open>Example inputs\<close>

text \<open>
  Concrete values at which the theorems below are instantiated: an outside world in which
  every call succeeds (issues are numbered by the calls made so far, the agent finds the
  requirements clear), the same world with a failing test run, a task, an agent and the
  context of a verification request.
\<close>

definition ok_env :: env where
  "ok_env =
     \<lparr>issue_reply = (\<lambda>tr c. Inr \<lparr>issue_number = int (length tr) + 1\<rparr>),
      unit_reply = (\<lambda>tr c. Inr ()),
      text_reply = (\<lambda>tr c. Inr ''REQUIREMENTS_CLEAR''),
      exec_reply = (\<lambda>tr c. Inr \<lparr>exitCode = Some 0, test_output = Some ''ok'', test_error = None\<rparr>),
      impl_reply = (\<lambda>tr c. Inr \<lparr>summary = ''done'', modifiedFiles = []\<rparr>),
      pull_reply = (\<lambda>tr c. Inr \<lparr>pr_number = 7, pr_title = ''Feature'', html_url = ''u''\<rparr>)\<rparr>"


definition shop_repository :: repository_info where
  "shop_repository =
     \<lparr>repo_url = Some ''https://git.example/acme/shop.git'', repo_branch = None,
      repo_owner = Some ''acme'', repo_name = Some ''shop''\<rparr>"

definition login_task :: task where
  "login_task =
     \<lparr>task_id = ''T1'', description = ''Add a login form'', additionalContext = None,
      repository = Some shop_repository, metadata_repository = None, sourceIssue = None,
      task_branch = None, pullRequest = None\<rparr>"


definition claude_agent :: agent where
  "claude_agent =
     \<lparr>agent_id = ''A1'', agent_type = ''claude'', agent_status = ''waiting'',
      conversationHistory = [], clarificationAnswers = None, verificationResponse = None,
      implementationPlan = None, currentTask = None, workingDirectory = None\<rparr>"

definition verification_ctx :: hctx where
  "verification_ctx =
     \<lparr>ctx_agentId = Some ''A1'', ctx_type = Some ''verification'',
      ctx_question = Some ''Please verify the implementation plan'', ctx_options = None,
      ctx_urgency = Some ''high'', ctx_repository = Some shop_repository,
      ctx_metadata_repository = None\<rparr>"

definition empty_state :: hl_state where
  "empty_state =
     \<lparr>pendingRequests = [], sys = \<lparr>activeAgents = [''A1'' \<mapsto> claude_agent], trace = []\<rparr>\<rparr>"


text \<open>The human-loop service after one request for the verification of the login task,
  made at time 1000, and after a second, equal request made at time 2000.\<close>

definition one_pending :: hl_state where
  "one_pending = snd (requestHumanInput ok_env 1000 login_task verification_ctx empty_state)"

definition two_pending :: hl_state where
  "two_pending = snd (requestHumanInput ok_env 2000 login_task verification_ctx one_pending)"

text \<open>The reviewer's answers to the verification request: an approval, and a rejection
  with feedback.\<close>

definition approve_comment :: response_data where
  "approve_comment =
     \<lparr>rd_taskId = ''T1'', rd_agentId = Some ''A1'', rd_issueNumber = Some 1,
      rd_comment_body = ''APPROVAL: Yes'',
      rd_repository = Some (Some ''acme'', Some ''shop'')\<rparr>"

definition reject_comment :: response_data where
  "reject_comment =
     approve_comment\<lparr>rd_comment_body := ''APPROVAL: No\<newline>FEEDBACK: redo with OAuth''\<rparr>"

section \<open>Notions used in the statements\<close>

text \<open>The state after further outgoing calls, a call that runs the tests, and the calls
  of one attempt of \<open>fixFailingTests\<close>: the agent is given the output and the error of the
  failed run, then everything is staged and committed.\<close>

definition after_calls :: "sys \<Rightarrow> call list \<Rightarrow> sys" where
  "after_calls s cs = s\<lparr>trace := trace s @ cs\<rparr>"



text \<open>The requests \<open>findPendingRequest\<close> looks for, and what the agent service makes of
  an agent when the type of the response is none of those it acts on: the response is
  appended to the conversation and the agent is set to \<open>working\<close>.\<close>

definition pending_for :: "string \<Rightarrow> string option \<Rightarrow> string \<times> pending_request \<Rightarrow> bool" where
  "pending_for taskId agentId =
     (\<lambda>(requestId, request). req_taskId request = taskId \<and> req_agentId request = agentId \<and>
        req_status request = ''pending'')"

definition resumed :: "nat \<Rightarrow> string \<Rightarrow> agent \<Rightarrow> agent" where
  "resumed now c a =
     a\<lparr>conversationHistory := conversationHistory a @
          [\<lparr>role = ''user'', entry_content = ''Human response: '' @ c,
            timestamp = now, isHumanResponse = True\<rparr>],
       agent_status := ''working''\<rparr>"




section \<open>Properties of the string operations\<close>


lemma of_char_lower:
  "(of_char (lower_char c) :: nat) =
     (if (65 \<le> (of_char c :: nat) \<and> (of_char c :: nat) \<le> 90) \<or>
         (192 \<le> (of_char c :: nat) \<and> (of_char c :: nat) \<le> 222 \<and> (of_char c :: nat) \<noteq> 215)
      then of_char c + 32 else of_char c)"
  by (auto simp: lower_char_def Let_def of_char_of)

lemma char_eq_nat: "c = d \<longleftrightarrow> (of_char c :: nat) = of_char d"
  by (simp add: of_char_eq_iff)

lemma lower_char_y: "lower_char c = CHR ''y'' \<longleftrightarrow> c = CHR ''y'' \<or> c = CHR ''Y''"
  unfolding char_eq_nat [of _ "CHR ''y''"] char_eq_nat [of _ "CHR ''Y''"] of_char_lower
  by auto

lemma lower_char_e: "lower_char c = CHR ''e'' \<longleftrightarrow> c = CHR ''e'' \<or> c = CHR ''E''"
  unfolding char_eq_nat [of _ "CHR ''e''"] char_eq_nat [of _ "CHR ''E''"] of_char_lower
  by auto

lemma lower_char_s: "lower_char c = CHR ''s'' \<longleftrightarrow> c = CHR ''s'' \<or> c = CHR ''S''"
  unfolding char_eq_nat [of _ "CHR ''s''"] char_eq_nat [of _ "CHR ''S''"] of_char_lower
  by auto

lemma rtrim_snoc:
  "rev (dropWhile P (rev (xs @ [x]))) = (if P x then rev (dropWhile P (rev xs)) else xs @ [x])"
  by simp

lemma rtrim_hd:
  "xs \<noteq> [] \<Longrightarrow> \<not> P (hd xs) \<Longrightarrow> rev (dropWhile P (rev xs)) \<noteq> [] \<and> hd (rev (dropWhile P (rev xs))) = hd xs"
proof (induction xs rule: rev_induct)
  case Nil
  then show ?case by simp
next
  case (snoc x xs)
  show ?case
  proof (cases "xs = []")
    case True
    with snoc.prems show ?thesis by simp
  next
    case False
    with snoc show ?thesis by (auto simp: hd_append)
  qed
qed

lemma rtrim_last:
  "rev (dropWhile P (rev xs)) \<noteq> [] \<Longrightarrow> \<not> P (last (rev (dropWhile P (rev xs))))"
  by (metis hd_dropWhile last_rev rev_is_Nil_conv)

lemma trimmed_trim: "trimmed (trim s)"
proof (cases "trim s = []")
  case True
  then show ?thesis by (simp add: trimmed_def)
next
  case False
  let ?d = "dropWhile is_ws s"
  have "?d = [] \<Longrightarrow> trim s = []" by (auto simp: trim_def dest: set_dropWhileD)
  with False have d: "?d \<noteq> []" by blast
  then have "\<not> is_ws (hd ?d)" by (rule hd_dropWhile)
  with d have "hd (trim s) = hd ?d" by (simp add: trim_def rtrim_hd)
  with \<open>\<not> is_ws (hd ?d)\<close> have "\<not> is_ws (hd (trim s))" by simp
  moreover from False have "\<not> is_ws (last (trim s))"
    unfolding trim_def by (rule rtrim_last)
  ultimately show ?thesis by (simp add: trimmed_def)
qed

lemma trim_trimmed: "trimmed s \<Longrightarrow> trim s = s"
proof (cases "s = []")
  case True
  then show ?thesis by (simp add: trim_def)
next
  case False
  assume "trimmed s"
  with False have h: "\<not> is_ws (hd s)" and l: "\<not> is_ws (last s)" by (auto simp: trimmed_def)
  from False h have "dropWhile is_ws s = s" by (cases s) auto
  moreover from False l have "dropWhile is_ws (rev s) = rev s" by (cases s rule: rev_cases) auto
  ultimately show ?thesis by (simp add: trim_def)
qed

lemma trim_idem: "trim (trim s) = trim s"
  by (simp add: trim_trimmed trimmed_trim)

lemma trim_ws_Cons: "is_ws c \<Longrightarrow> trim (c # s) = trim s"
  by (simp add: trim_def)

lemma trim_snoc_ws: "is_ws x \<Longrightarrow> trim (r @ [x]) = trim r"
proof (cases "\<forall>c\<in>set r. is_ws c")
  case True
  assume "is_ws x"
  with True have "dropWhile is_ws (r @ [x]) = []" and "dropWhile is_ws r = []" by auto
  then show ?thesis unfolding trim_def by (simp del: dropWhile_eq_Nil_conv)
next
  case False
  assume x: "is_ws x"
  from False have "dropWhile is_ws (r @ [x]) = dropWhile is_ws r @ [x]"
    by (auto simp: dropWhile_append1)
  with x show ?thesis by (simp add: trim_def)
qed

lemma trim_append_ws: "\<forall>c\<in>set t. is_ws c \<Longrightarrow> trim (r @ t) = trim r"
proof (induction t rule: rev_induct)
  case Nil
  then show ?case by simp
next
  case (snoc x xs)
  then have "trim (r @ xs) = trim r" by simp
  moreover have "trim ((r @ xs) @ [x]) = trim (r @ xs)"
    using snoc.prems by (intro trim_snoc_ws) simp
  ultimately show ?case by simp
qed

lemma line_decomp:
  "\<exists>t. (\<forall>c\<in>set t. is_ws c) \<and> s = takeWhile is_ws s @ trim s @ t"
proof -
  let ?d = "dropWhile is_ws s"
  have "rev ?d = takeWhile is_ws (rev ?d) @ dropWhile is_ws (rev ?d)" by simp
  then have "?d = rev (dropWhile is_ws (rev ?d)) @ rev (takeWhile is_ws (rev ?d))"
    by (metis rev_append rev_rev_ident)
  then have "?d = trim s @ rev (takeWhile is_ws (rev ?d))" by (simp add: trim_def)
  moreover have "\<forall>c\<in>set (rev (takeWhile is_ws (rev ?d))). is_ws c"
    by (auto dest: set_takeWhileD)
  moreover have "s = takeWhile is_ws s @ ?d" by simp
  ultimately show ?thesis by metis
qed

lemma indexOf_skip:
  "\<forall>c\<in>set w. is_ws c \<Longrightarrow> P \<noteq> [] \<Longrightarrow> \<not> is_ws (hd P) \<Longrightarrow>
   indexOf (w @ P @ r) P = int (length w)"
proof (induction w)
  case Nil
  have "prefix P (P @ r)" by simp
  with Nil show ?case by (cases "P @ r") auto
next
  case (Cons c w)
  then have ih: "indexOf (w @ P @ r) P = int (length w)" by simp
  have "is_ws c" using Cons.prems by simp
  with Cons.prems have "\<not> prefix P (c # w @ P @ r)" by (cases P) auto
  with ih show ?case by (simp add: Let_def)
qed

lemma content_after_prefix:
  assumes "startsWith (trim line) P"
  shows "trim (substring line (indexOf line P + int (length P))) = trim (drop (length P) (trim line))"
proof (cases "P = []")
  case True
  then show ?thesis by (cases line) (simp_all add: substring_def trim_idem)
next
  case False
  from assms obtain r where r: "trim line = P @ r" by (auto simp: startsWith_def prefix_def)
  obtain t where t: "\<forall>c\<in>set t. is_ws c" and l: "line = takeWhile is_ws line @ trim line @ t"
    using line_decomp by blast
  let ?w = "takeWhile is_ws line"
  have w: "\<forall>c\<in>set ?w. is_ws c" by (auto dest: set_takeWhileD)
  have "trimmed (P @ r)" using trimmed_trim [of line] r by simp
  with False have hP: "\<not> is_ws (hd P)" by (auto simp: trimmed_def)
  have l': "line = ?w @ P @ (r @ t)" using l r by simp
  have "indexOf (?w @ P @ (r @ t)) P = int (length ?w)"
    using w False hP by (rule indexOf_skip)
  then have "indexOf line P = int (length ?w)" using l' by simp
  then have "substring line (indexOf line P + int (length P)) = drop (length ?w + length P) line"
    by (simp add: substring_def nat_add_distrib)
  also have "\<dots> = drop (length ?w + length P) (?w @ P @ (r @ t))" using l' by simp
  also have "\<dots> = r @ t" by simp
  finally have "trim (substring line (indexOf line P + int (length P))) = trim r"
    using t by (simp add: trim_append_ws)
  moreover have "drop (length P) (trim line) = r" using r by simp
  ultimately show ?thesis by simp
qed

lemma extract_loop_skip:
  "\<forall>l\<in>set before. \<not> startsWith (trim l) P \<Longrightarrow>
   extract_loop P (before @ ls) c False = extract_loop P ls c False"
  by (induction before) auto

lemma extract_loop_body:
  "\<forall>l\<in>set body. \<not> startsWith (trim l) P \<and> \<not> matches_label (trim l) \<Longrightarrow>
   extract_loop P (body @ ls) c True = extract_loop P ls (c @ appended body) True"
  by (induction body arbitrary: c) (auto simp: appended_def)

lemma extract_loop_stop:
  "rest = [] \<or> (matches_label (trim (hd rest)) \<and> \<not> startsWith (trim (hd rest)) P) \<Longrightarrow>
   extract_loop P rest c True = c"
  by (cases rest) auto

lemma extract_loop_shape:
  assumes "\<forall>l\<in>set before. \<not> startsWith (trim l) P"
    and "startsWith (trim first) P"
    and "\<forall>l\<in>set body. \<not> startsWith (trim l) P \<and> \<not> matches_label (trim l)"
    and "rest = [] \<or> (matches_label (trim (hd rest)) \<and> \<not> startsWith (trim (hd rest)) P)"
  shows "extract_loop P (before @ first # body @ rest) [] False =
         trim (drop (length P) (trim first)) @ appended body"
proof -
  have "extract_loop P (before @ first # body @ rest) [] False =
        extract_loop P (first # body @ rest) [] False"
    using assms(1) by (rule extract_loop_skip)
  also have "\<dots> = extract_loop P (body @ rest) (trim (drop (length P) (trim first))) True"
    using assms(2) by (simp add: content_after_prefix)
  also have "\<dots> = extract_loop P rest (trim (drop (length P) (trim first)) @ appended body) True"
    using assms(3) by (rule extract_loop_body)
  also have "\<dots> = trim (drop (length P) (trim first)) @ appended body"
    using assms(4) by (rule extract_loop_stop)
  finally show ?thesis .
qed

lemma join_sp_Cons: "ps \<noteq> [] \<Longrightarrow> join_sp (p # ps) = p @ '' '' @ join_sp ps"
  by (cases ps) auto

lemma concat_pieces: "ps \<noteq> [] \<Longrightarrow> concat (map (\<lambda>p. '' '' @ p) ps) = '' '' @ join_sp ps"
proof (induction ps)
  case Nil
  then show ?case by simp
next
  case (Cons p ps)
  then show ?case by (cases "ps = []") (auto simp: join_sp_Cons)
qed

lemma trimmed_join_sp:
  "ps \<noteq> [] \<Longrightarrow> \<forall>p\<in>set ps. p \<noteq> [] \<and> trimmed p \<Longrightarrow> join_sp ps \<noteq> [] \<and> trimmed (join_sp ps)"
proof (induction ps rule: join_sp.induct)
  case 1
  then show ?case by simp
next
  case (2 p)
  then show ?case by simp
next
  case (3 p q ps)
  then have "join_sp (q # ps) \<noteq> []" and "trimmed (join_sp (q # ps))" by auto
  moreover from 3 have "p \<noteq> []" and "trimmed p" by auto
  ultimately show ?case by (auto simp: trimmed_def hd_append)
qed

lemma appended_eq:
  "appended body = concat (map (\<lambda>p. '' '' @ p) (filter (\<lambda>s. s \<noteq> []) (map trim body)))"
  by (induction body) (auto simp: appended_def)

lemma trim_joined:
  assumes "trimmed c0"
  shows "trim (c0 @ appended body) = join_sp (filter (\<lambda>s. s \<noteq> []) (c0 # map trim body))"
proof -
  let ?ps = "filter (\<lambda>s. s \<noteq> []) (map trim body)"
  have ps: "\<forall>p\<in>set ?ps. p \<noteq> [] \<and> trimmed p" by (auto simp: trimmed_trim)
  show ?thesis
  proof (cases "?ps = []")
    case True
    then have "appended body = []" by (simp add: appended_eq)
    with True assms show ?thesis by (simp add: trim_trimmed)
  next
    case False
    with ps have j: "join_sp ?ps \<noteq> []" "trimmed (join_sp ?ps)" using trimmed_join_sp by blast+
    have a: "appended body = '' '' @ join_sp ?ps" using concat_pieces [OF False] by (simp add: appended_eq)
    show ?thesis
    proof (cases "c0 = []")
      case True
      have "trim ('' '' @ join_sp ?ps) = trim (join_sp ?ps)" by (simp add: trim_ws_Cons is_ws_def)
      with True a j show ?thesis by (simp add: trim_trimmed)
    next
      case c0: False
      have "\<forall>p\<in>set (c0 # ?ps). p \<noteq> [] \<and> trimmed p" using ps c0 assms by simp
      then have "trimmed (join_sp (c0 # ?ps))" using trimmed_join_sp [of "c0 # ?ps"] by blast
      moreover have "join_sp (c0 # ?ps) = c0 @ appended body" using False a by (simp add: join_sp_Cons)
      ultimately show ?thesis using c0 by (simp add: trim_trimmed)
    qed
  qed
qed

lemma extract_capture_rule:
  assumes "split_nl text = before @ first # body @ rest"
    and "\<forall>l\<in>set before. \<not> startsWith (trim l) P"
    and "startsWith (trim first) P"
    and "\<forall>l\<in>set body. \<not> startsWith (trim l) P \<and> \<not> matches_label (trim l)"
    and "rest = [] \<or> (matches_label (trim (hd rest)) \<and> \<not> startsWith (trim (hd rest)) P)"
  shows "extractStructuredContent text P =
         join_sp (filter (\<lambda>s. s \<noteq> []) (map trim (drop (length P) (trim first) # body)))"
proof -
  have "extract_loop P (split_nl text) [] False = trim (drop (length P) (trim first)) @ appended body"
    unfolding assms(1) using assms(2-5) by (rule extract_loop_shape)
  then show ?thesis
    by (simp add: extractStructuredContent_def trim_joined trimmed_trim)
qed

lemma committed_cases:
  "committed_prefix t =
     (if includes_str t ''DECISION:'' then Some (''DECISION:'', ''decision'')
      else if includes_str t ''CODE:'' then Some (''CODE:'', ''code'')
      else if includes_str t ''GUIDANCE:'' then Some (''GUIDANCE:'', ''guidance'')
      else if includes_str t ''APPROVAL:'' then Some (''APPROVAL:'', ''approval'')
      else if includes_str t ''QUESTION:'' then Some (''QUESTION:'', ''question'')
      else None)"
  by (simp add: committed_prefix_def prefix_table_def)

lemma parse_committed:
  "committed_prefix (trim text) = Some (P, ty) \<Longrightarrow>
   rtype (parseHumanResponse text) = ty \<and>
   content (parseHumanResponse text) = extractStructuredContent (trim text) P"
  by (auto simp: committed_cases parseHumanResponse_def Let_def split: if_splits)

lemma parse_uncommitted:
  "committed_prefix (trim text) = None \<Longrightarrow>
   parseHumanResponse text =
     \<lparr>rtype = ''general'', content = trim text, feedback = None, approved = None, raw = trim text\<rparr>"
  by (auto simp: committed_cases parseHumanResponse_def Let_def split: if_splits)






lemma prefix_yes_lower:
  "prefix ''yes'' (map lower_char s) = yes_at s"
proof (cases s)
  case Nil
  then show ?thesis by simp
next
  case (Cons a s1)
  show ?thesis
  proof (cases s1)
    case Nil
    with Cons show ?thesis by simp
  next
    case (Cons b s2)
    note c2 = this
    show ?thesis
    proof (cases s2)
      case Nil
      with \<open>s = a # s1\<close> c2 show ?thesis by simp
    next
      case (Cons c s3)
      with \<open>s = a # s1\<close> c2 show ?thesis
        by (simp add: eq_commute lower_char_y lower_char_e lower_char_s)
    qed
  qed
qed

lemma includes_lower_yes: "includes_str (toLowerCase s) ''yes'' = contains_yes s"
proof (induction s)
  case Nil
  then show ?case by (simp add: toLowerCase_def)
next
  case (Cons c cs)
  have "prefix ''yes'' (map lower_char (c # cs)) = yes_at (c # cs)" by (rule prefix_yes_lower)
  with Cons show ?case by (simp add: toLowerCase_def)
qed

text \<open>
  Claim C5, as amended. A text that contains \<open>APPROVAL:\<close> and none of the prefixes of
  higher priority (\<open>DECISION:\<close>, \<open>CODE:\<close>, \<open>GUIDANCE:\<close>) is parsed as an approval:
  \<open>approved\<close> holds exactly when the captured approval text contains y-e-s in any letter
  case, and \<open>feedback\<close> is the \<open>FEEDBACK:\<close> block of the text. The two examples of the
  specification are included.
\<close>

theorem parse_approval:
  "(includes_str (trim text) ''APPROVAL:'' \<and> \<not> includes_str (trim text) ''DECISION:'' \<and>
    \<not> includes_str (trim text) ''CODE:'' \<and> \<not> includes_str (trim text) ''GUIDANCE:'' \<longrightarrow>
      parseHumanResponse text =
        \<lparr>rtype = ''approval'',
         content = extractStructuredContent (trim text) ''APPROVAL:'',
         feedback = Some (extractStructuredContent (trim text) ''FEEDBACK:''),
         approved = Some (contains_yes (extractStructuredContent (trim text) ''APPROVAL:'')),
         raw = trim text\<rparr>) \<and>
   parseHumanResponse ''APPROVAL: Yes\<newline>FEEDBACK: add tests'' =
     \<lparr>rtype = ''approval'', content = ''Yes'', feedback = Some ''add tests'',
      approved = Some True, raw = ''APPROVAL: Yes\<newline>FEEDBACK: add tests''\<rparr> \<and>
   approved (parseHumanResponse ''APPROVAL: no'') = Some False"
proof (intro conjI impI)
  assume "includes_str (trim text) ''APPROVAL:'' \<and> \<not> includes_str (trim text) ''DECISION:'' \<and>
    \<not> includes_str (trim text) ''CODE:'' \<and> \<not> includes_str (trim text) ''GUIDANCE:''"
  then show "parseHumanResponse text =
        \<lparr>rtype = ''approval'',
         content = extractStructuredContent (trim text) ''APPROVAL:'',
         feedback = Some (extractStructuredContent (trim text) ''FEEDBACK:''),
         approved = Some (contains_yes (extractStructuredContent (trim text) ''APPROVAL:'')),
         raw = trim text\<rparr>"
    by (simp add: parseHumanResponse_def Let_def includes_lower_yes)
next
  show "parseHumanResponse ''APPROVAL: Yes\<newline>FEEDBACK: add tests'' =
     \<lparr>rtype = ''approval'', content = ''Yes'', feedback = Some ''add tests'',
      approved = Some True, raw = ''APPROVAL: Yes\<newline>FEEDBACK: add tests''\<rparr>"
    by code_simp
next
  show "approved (parseHumanResponse ''APPROVAL: no'') = Some False"
    by code_simp
qed

text \<open>Claim C5 at a text with the approval on its second line.\<close>

theorem parse_approval_witness:
  "includes_str (trim ''Looks fine.\<newline>APPROVAL: yes, go\<newline>ahead\<newline>FEEDBACK: add tests'') ''APPROVAL:'' \<and>
   parseHumanResponse ''Looks fine.\<newline>APPROVAL: yes, go\<newline>ahead\<newline>FEEDBACK: add tests'' =
     \<lparr>rtype = ''approval'', content = ''yes, go ahead'', feedback = Some ''add tests'',
      approved = Some True,
      raw = ''Looks fine.\<newline>APPROVAL: yes, go\<newline>ahead\<newline>FEEDBACK: add tests''\<rparr>"
proof -
  let ?t = "''Looks fine.\<newline>APPROVAL: yes, go\<newline>ahead\<newline>FEEDBACK: add tests''"
  have t: "trim ?t = ?t" by code_simp
  have h: "includes_str (trim ?t) ''APPROVAL:'' \<and> \<not> includes_str (trim ?t) ''DECISION:'' \<and>
    \<not> includes_str (trim ?t) ''CODE:'' \<and> \<not> includes_str (trim ?t) ''GUIDANCE:''"
    by code_simp
  have a: "extractStructuredContent ?t ''APPROVAL:'' = ''yes, go ahead''" by code_simp
  have f: "extractStructuredContent ?t ''FEEDBACK:'' = ''add tests''" by code_simp
  have y: "contains_yes ''yes, go ahead''" by code_simp
  from parse_approval [of ?t] h t a f y show ?thesis by simp
qed

text \<open>Claim C5 as stated fails: this text contains \<open>APPROVAL:\<close>, yet it is parsed as a
  decision and carries no \<open>approved\<close> flag.\<close>

theorem parse_approval_counterexample:
  "includes_str (trim ''DECISION: ship it\<newline>APPROVAL: Yes'') ''APPROVAL:'' \<and>
   rtype (parseHumanResponse ''DECISION: ship it\<newline>APPROVAL: Yes'') = ''decision'' \<and>
   approved (parseHumanResponse ''DECISION: ship it\<newline>APPROVAL: Yes'') = None"
  by code_simp

text \<open>
  Claim C4, as amended. The parser commits to the first prefix, in the order
  \<open>DECISION:\<close>, \<open>CODE:\<close>, \<open>GUIDANCE:\<close>, \<open>APPROVAL:\<close>, \<open>QUESTION:\<close>, that occurs anywhere
  in the trimmed text, compared exactly. When the lines of the text are some lines not
  starting with that prefix, then one line starting with it, then lines that are neither
  labels (capitals followed by a colon) nor start with the prefix, and then the end of the
  text or a label line, the content is what follows the prefix on its line and the
  non-blank following lines, each trimmed, joined with single spaces.
\<close>

theorem parse_commit_and_capture:
  assumes "committed_prefix (trim text) = Some (P, ty)"
    and "split_nl (trim text) = before @ first # body @ rest"
    and "\<forall>l\<in>set before. \<not> startsWith (trim l) P"
    and "startsWith (trim first) P"
    and "\<forall>l\<in>set body. \<not> startsWith (trim l) P \<and> \<not> matches_label (trim l)"
    and "rest = [] \<or> (matches_label (trim (hd rest)) \<and> \<not> startsWith (trim (hd rest)) P)"
  shows "rtype (parseHumanResponse text) = ty \<and>
         content (parseHumanResponse text) =
           join_sp (filter (\<lambda>s. s \<noteq> []) (map trim (drop (length P) (trim first) # body)))"
proof -
  have "extractStructuredContent (trim text) P =
          join_sp (filter (\<lambda>s. s \<noteq> []) (map trim (drop (length P) (trim first) # body)))"
    using assms(2-6) by (rule extract_capture_rule)
  with parse_committed [OF assms(1)] show ?thesis by simp
qed

text \<open>Claim C4 at a text with a \<open>CODE:\<close> block that ends at the line \<open>NOTE: careful\<close>.\<close>

theorem parse_commit_and_capture_witness:
  "committed_prefix (trim ''Thanks!\<newline>CODE: use a map\<newline>  keyed by id  \<newline>\<newline>NOTE: careful\<newline>QUESTION: why?'')
     = Some (''CODE:'', ''code'') \<and>
   rtype (parseHumanResponse ''Thanks!\<newline>CODE: use a map\<newline>  keyed by id  \<newline>\<newline>NOTE: careful\<newline>QUESTION: why?'') = ''code'' \<and>
   content (parseHumanResponse ''Thanks!\<newline>CODE: use a map\<newline>  keyed by id  \<newline>\<newline>NOTE: careful\<newline>QUESTION: why?'') = ''use a map keyed by id''"
proof -
  let ?t = "''Thanks!\<newline>CODE: use a map\<newline>  keyed by id  \<newline>\<newline>NOTE: careful\<newline>QUESTION: why?''"
  have c: "committed_prefix (trim ?t) = Some (''CODE:'', ''code'')" by code_simp
  have s: "split_nl (trim ?t) = [''Thanks!''] @ ''CODE: use a map'' # [''  keyed by id  '', []] @ [''NOTE: careful'', ''QUESTION: why?'']"
    by code_simp
  have b: "\<forall>l\<in>set [''Thanks!'']. \<not> startsWith (trim l) ''CODE:''" by code_simp
  have f: "startsWith (trim ''CODE: use a map'') ''CODE:''" by code_simp
  have m: "\<forall>l\<in>set [''  keyed by id  '', []]. \<not> startsWith (trim l) ''CODE:'' \<and> \<not> matches_label (trim l)"
    by code_simp
  have r: "[''NOTE: careful'', ''QUESTION: why?''] = [] \<or>
      (matches_label (trim (hd [''NOTE: careful'', ''QUESTION: why?''])) \<and>
       \<not> startsWith (trim (hd [''NOTE: careful'', ''QUESTION: why?''])) ''CODE:'')"
    by code_simp
  have j: "join_sp (filter (\<lambda>s. s \<noteq> []) (map trim (drop (length ''CODE:'') (trim ''CODE: use a map'') # [''  keyed by id  '', []])))
      = ''use a map keyed by id''"
    by code_simp
  from parse_commit_and_capture [OF c s b f m r] c j show ?thesis by simp
qed

text \<open>Claim C4 as stated fails: a prefix in lower case is not recognised, a prefix in the
  middle of a line is recognised (with empty content), and a line with a label that is
  not one of the prefixes ends the capture.\<close>

theorem parse_commit_and_capture_counterexample:
  "rtype (parseHumanResponse ''decision: use A'') = ''general'' \<and>
   parseHumanResponse ''my DECISION: use A'' =
     \<lparr>rtype = ''decision'', content = [], feedback = None, approved = None,
      raw = ''my DECISION: use A''\<rparr> \<and>
   content (parseHumanResponse ''DECISION: use A\<newline>NOTE: careful\<newline>and B'') = ''use A''"
  by code_simp

section \<open>The three parsers compared\<close>


lemma startsWith_includes: "startsWith s p \<Longrightarrow> includes_str s p"
  by (cases s) (auto simp: startsWith_def)

lemma prefix_same_head: "prefix (a # p) s \<Longrightarrow> prefix (b # q) s \<Longrightarrow> a = b"
  by (auto simp: prefix_def)

lemma split_on_single: "sep \<notin> set t \<Longrightarrow> split_on sep t = [t]"
  by (induction t) auto

lemma extract_single_line:
  assumes "startsWith (trim t) P" and "CHR 0x0A \<notin> set t"
  shows "extractStructuredContent t P = trim (drop (length P) (trim t))"
proof -
  have s: "split_nl t = [] @ t # [] @ []"
    using assms(2) by (simp add: split_nl_def split_on_single)
  have "extractStructuredContent t P =
          join_sp (filter (\<lambda>s. s \<noteq> []) (map trim (drop (length P) (trim t) # [])))"
    using s by (rule extract_capture_rule) (use assms(1) in simp_all)
  then show ?thesis by simp
qed

lemma gitea_general:
  assumes "committed_prefix (trim (gc_body c)) = None"
  shows "g_type (parse_comment c) = ''general'' \<and> g_content (parse_comment c) = trim (gc_body c)"
proof -
  have "\<not> includes_str (trim (gc_body c)) ''DECISION:''" "\<not> includes_str (trim (gc_body c)) ''CODE:''"
    "\<not> includes_str (trim (gc_body c)) ''GUIDANCE:''" "\<not> includes_str (trim (gc_body c)) ''APPROVAL:''"
    using assms by (auto simp: committed_cases split: if_splits)
  then have "\<not> startsWith (trim (gc_body c)) ''DECISION:''" "\<not> startsWith (trim (gc_body c)) ''CODE:''"
    "\<not> startsWith (trim (gc_body c)) ''GUIDANCE:''" "\<not> startsWith (trim (gc_body c)) ''APPROVAL:''"
    using startsWith_includes by blast+
  then show ?thesis by (simp add: parse_comment_def Let_def)
qed

lemma not_both_heads: "startsWith s (a # p) \<Longrightarrow> a \<noteq> b \<Longrightarrow> \<not> startsWith s (b # q)"
  by (auto simp: startsWith_def prefix_def)

lemma gitea_decision:
  assumes "startsWith (trim (gc_body c)) ''DECISION:''"
  shows "g_type (parse_comment c) = ''decision'' \<and>
         g_content (parse_comment c) = trim (drop 9 (trim (gc_body c))) \<and>
         g_approved (parse_comment c) = None"
  using assms by (simp add: parse_comment_def Let_def substring_def)

lemma gitea_code:
  assumes "startsWith (trim (gc_body c)) ''CODE:''"
  shows "g_type (parse_comment c) = ''code'' \<and>
         g_content (parse_comment c) = trim (drop 5 (trim (gc_body c))) \<and>
         g_approved (parse_comment c) = None"
proof -
  have "\<not> startsWith (trim (gc_body c)) ''DECISION:''"
    by (rule not_both_heads [OF assms]) simp
  with assms show ?thesis by (simp add: parse_comment_def Let_def substring_def)
qed

lemma gitea_guidance:
  assumes "startsWith (trim (gc_body c)) ''GUIDANCE:''"
  shows "g_type (parse_comment c) = ''guidance'' \<and>
         g_content (parse_comment c) = trim (drop 9 (trim (gc_body c))) \<and>
         g_approved (parse_comment c) = None"
proof -
  have "\<not> startsWith (trim (gc_body c)) ''DECISION:''"
    by (rule not_both_heads [OF assms]) simp
  moreover have "\<not> startsWith (trim (gc_body c)) ''CODE:''"
    by (rule not_both_heads [OF assms]) simp
  ultimately show ?thesis using assms by (simp add: parse_comment_def Let_def substring_def)
qed

lemma gitea_approval:
  assumes "startsWith (trim (gc_body c)) ''APPROVAL:''"
  shows "g_type (parse_comment c) = ''approval'' \<and>
         g_content (parse_comment c) = trim (drop 9 (trim (gc_body c))) \<and>
         g_approved (parse_comment c) = Some (contains_yes (trim (drop 9 (trim (gc_body c)))))"
proof -
  have "\<not> startsWith (trim (gc_body c)) ''DECISION:''"
    by (rule not_both_heads [OF assms]) simp
  moreover have "\<not> startsWith (trim (gc_body c)) ''CODE:''"
    by (rule not_both_heads [OF assms]) simp
  moreover have "\<not> startsWith (trim (gc_body c)) ''GUIDANCE:''"
    by (rule not_both_heads [OF assms]) simp
  ultimately show ?thesis using assms
    by (simp add: parse_comment_def Let_def substring_def includes_lower_yes)
qed

lemma parse_committed_approved:
  "committed_prefix (trim text) = Some (P, ty) \<Longrightarrow>
   approved (parseHumanResponse text) =
     (if ty = ''approval'' then Some (contains_yes (extractStructuredContent (trim text) P)) else None)"
  by (auto simp: committed_cases parseHumanResponse_def Let_def includes_lower_yes split: if_splits)

lemma of_char_upper:
  "(of_char (upper_ascii c) :: nat) =
     (if 97 \<le> (of_char c :: nat) \<and> (of_char c :: nat) \<le> 122 then of_char c - 32 else of_char c)"
  by (auto simp: upper_ascii_def Let_def of_char_of)

lemma upper_Y: "upper_ascii c = CHR ''Y'' \<longleftrightarrow> c = CHR ''y'' \<or> c = CHR ''Y''"
  unfolding char_eq_nat [of _ "CHR ''y''"] char_eq_nat [of _ "CHR ''Y''"] of_char_upper
  by auto

lemma upper_E: "upper_ascii c = CHR ''E'' \<longleftrightarrow> c = CHR ''e'' \<or> c = CHR ''E''"
  unfolding char_eq_nat [of _ "CHR ''e''"] char_eq_nat [of _ "CHR ''E''"] of_char_upper
  by auto

lemma upper_S: "upper_ascii c = CHR ''S'' \<longleftrightarrow> c = CHR ''s'' \<or> c = CHR ''S''"
  unfolding char_eq_nat [of _ "CHR ''s''"] char_eq_nat [of _ "CHR ''S''"] of_char_upper
  by auto

lemma upper_N: "upper_ascii c = CHR ''N'' \<longleftrightarrow> c = CHR ''n'' \<or> c = CHR ''N''"
  unfolding char_eq_nat [of _ "CHR ''n''"] char_eq_nat [of _ "CHR ''N''"] of_char_upper
  by auto

lemma upper_yes: "map upper_ascii ''yes'' = ''YES''" and upper_Yes: "map upper_ascii ''Yes'' = ''YES''"
  and upper_no: "map upper_ascii ''no'' = ''NO''" and upper_No: "map upper_ascii ''No'' = ''NO''"
  and upper_APPROVAL: "map upper_ascii ''APPROVAL:'' = ''APPROVAL:''"
  by code_simp+

lemma ci_prefix_yes_iff: "ci_prefix ''yes'' r = yes_at r" and ci_prefix_Yes_iff: "ci_prefix ''Yes'' r = yes_at r"
proof -
  have "prefix ''YES'' (map upper_ascii r) = yes_at r"
  proof (cases r)
    case Nil
    then show ?thesis by simp
  next
    case (Cons a r1)
    note c1 = this
    show ?thesis
    proof (cases r1)
      case Nil
      with c1 show ?thesis by simp
    next
      case (Cons b r2)
      note c2 = this
      show ?thesis
      proof (cases r2)
        case Nil
        with c1 c2 show ?thesis by simp
      next
        case (Cons c r3)
        with c1 c2 show ?thesis by (simp add: eq_commute upper_Y upper_E upper_S)
      qed
    qed
  qed
  then show "ci_prefix ''yes'' r = yes_at r" and "ci_prefix ''Yes'' r = yes_at r"
    by (simp_all only: ci_prefix_def upper_yes upper_Yes)
qed

lemma yes_at_lower: "yes_at r \<Longrightarrow> toLowerCase (take 3 r) = ''yes''"
proof -
  assume "yes_at r"
  then have "prefix ''yes'' (map lower_char r)" by (simp add: prefix_yes_lower)
  then obtain v where "map lower_char r = ''yes'' @ v" by (auto simp: prefix_def)
  then have "take 3 (map lower_char r) = ''yes''" by simp
  then show ?thesis by (simp add: toLowerCase_def take_map)
qed

lemma yes_at_contains: "yes_at r \<Longrightarrow> contains_yes r"
  by (cases r) auto

lemma ci_prefix_mono: "ci_prefix p a \<Longrightarrow> prefix a r \<Longrightarrow> ci_prefix p r"
  unfolding ci_prefix_def by (meson map_mono_prefix prefix_order.trans)

lemma rtrim_prefix: "prefix (rev (dropWhile P (rev r))) r"
proof -
  have "rev r = takeWhile P (rev r) @ dropWhile P (rev r)" by simp
  then have "r = rev (dropWhile P (rev r)) @ rev (takeWhile P (rev r))"
    by (metis rev_append rev_rev_ident)
  then show ?thesis by (metis prefixI)
qed

lemma trim_prefix_dropWhile: "prefix (trim s) (dropWhile is_ws s)"
  unfolding trim_def by (rule rtrim_prefix)

lemma approval_at_start:
  assumes "startsWith body ''APPROVAL:''"
  shows "regex_search approval_at body =
     (let r = dropWhile is_ws (drop 9 body) in
      if ci_prefix ''Yes'' r then Some (take 3 r)
      else if ci_prefix ''No'' r then Some (take 2 r)
      else regex_search approval_at (tl body))"
proof -
  from assms have "prefix ''APPROVAL:'' body" by (simp add: startsWith_def)
  then have ci: "ci_prefix ''APPROVAL:'' body"
    unfolding ci_prefix_def by (rule map_mono_prefix)
  from assms obtain c cs where b: "body = c # cs" by (cases body) (auto simp: startsWith_def)
  show ?thesis using ci unfolding b by (simp add: approval_at_def Let_def)
qed

lemma pv_yes:
  assumes "startsWith body ''APPROVAL:''" and "ci_prefix ''yes'' (trim (drop 9 body))"
  shows "v_approved (parseVerification body)"
proof -
  let ?r = "dropWhile is_ws (drop 9 body)"
  have "ci_prefix ''yes'' ?r" using assms(2) trim_prefix_dropWhile by (rule ci_prefix_mono)
  then have y: "yes_at ?r" by (simp add: ci_prefix_yes_iff)
  then have "regex_search approval_at body = Some (take 3 ?r)"
    using approval_at_start [OF assms(1)] by (simp add: Let_def ci_prefix_Yes_iff)
  with y show ?thesis by (simp add: parseVerification_def yes_at_lower)
qed

lemma pv_no:
  assumes "startsWith body ''APPROVAL:''" and "ci_prefix ''no'' (trim (drop 9 body))"
  shows "\<not> v_approved (parseVerification body)"
proof -
  let ?r = "dropWhile is_ws (drop 9 body)"
  have n: "ci_prefix ''No'' ?r"
    using ci_prefix_mono [OF assms(2) trim_prefix_dropWhile]
    by (simp only: ci_prefix_def upper_no upper_No)
  then have "prefix ''NO'' (map upper_ascii ?r)" by (simp only: ci_prefix_def upper_No)
  then obtain a r1 where r: "?r = a # r1" and "upper_ascii a = CHR ''N''"
    by (cases ?r) auto
  then have "\<not> yes_at ?r" by (cases r1; cases "tl r1") (auto simp: upper_N)
  then have "regex_search approval_at body = Some (take 2 ?r)"
    using approval_at_start [OF assms(1)] n by (simp add: Let_def ci_prefix_Yes_iff)
  moreover have "toLowerCase (take 2 ?r) \<noteq> ''yes''"
  proof
    assume "toLowerCase (take 2 ?r) = ''yes''"
    then have "length (toLowerCase (take 2 ?r)) = 3" by simp
    then show False by (simp add: toLowerCase_def)
  qed
  ultimately show ?thesis by (simp add: parseVerification_def)
qed

lemma approval_at_ws: "is_ws c \<Longrightarrow> approval_at (c # cs) = None"
proof -
  assume w: "is_ws c"
  have "upper_ascii c \<noteq> CHR ''A''"
  proof
    assume "upper_ascii c = CHR ''A''"
    then have "(of_char (upper_ascii c) :: nat) = 65" by simp
    then have "(of_char c :: nat) = 97 \<or> (of_char c :: nat) = 65"
      unfolding of_char_upper by (auto split: if_splits)
    then have "c = CHR ''a'' \<or> c = CHR ''A''"
      unfolding char_eq_nat [of c "CHR ''a''"] char_eq_nat [of c "CHR ''A''"] by simp
    with w show False by (auto simp: is_ws_def)
  qed
  then have "\<not> ci_prefix ''APPROVAL:'' (c # cs)"
    by (simp only: ci_prefix_def upper_APPROVAL) simp
  then show ?thesis by (simp only: approval_at_def if_False)
qed

lemma regex_search_approval_ws:
  "regex_search approval_at s = regex_search approval_at (dropWhile is_ws s)"
  by (induction s) (auto simp: approval_at_ws)

lemma pv_approved_dropWhile:
  "v_approved (parseVerification s) = v_approved (parseVerification (dropWhile is_ws s))"
  using regex_search_approval_ws [of s] by (simp add: parseVerification_def)

lemma dropWhile_trim_decomp: "\<exists>t. (\<forall>c\<in>set t. is_ws c) \<and> dropWhile is_ws s = trim s @ t"
proof -
  obtain t where t: "\<forall>c\<in>set t. is_ws c" and l: "s = takeWhile is_ws s @ trim s @ t"
    using line_decomp by blast
  have "s = takeWhile is_ws s @ dropWhile is_ws s" by simp
  with l have "takeWhile is_ws s @ dropWhile is_ws s = takeWhile is_ws s @ trim s @ t" by simp
  then have "dropWhile is_ws s = trim s @ t" by (simp only: same_append_eq)
  with t show ?thesis by blast
qed

lemma pv_raw:
  assumes "startsWith (trim s) ''APPROVAL:''"
  shows "ci_prefix ''yes'' (trim (drop 9 (trim s))) \<Longrightarrow> v_approved (parseVerification s)"
    and "ci_prefix ''no'' (trim (drop 9 (trim s))) \<Longrightarrow> \<not> v_approved (parseVerification s)"
proof -
  obtain t where t: "\<forall>c\<in>set t. is_ws c" and d: "dropWhile is_ws s = trim s @ t"
    using dropWhile_trim_decomp by blast
  from assms obtain v where v: "trim s = ''APPROVAL:'' @ v" by (auto simp: startsWith_def prefix_def)
  have st: "startsWith (dropWhile is_ws s) ''APPROVAL:''" using d v by (simp add: startsWith_def)
  have "drop 9 (dropWhile is_ws s) = drop 9 (trim s) @ t" using d v by simp
  then have tr: "trim (drop 9 (dropWhile is_ws s)) = trim (drop 9 (trim s))"
    using t by (simp add: trim_append_ws)
  show "ci_prefix ''yes'' (trim (drop 9 (trim s))) \<Longrightarrow> v_approved (parseVerification s)"
    using pv_yes [OF st] tr pv_approved_dropWhile [of s] by simp
  show "ci_prefix ''no'' (trim (drop 9 (trim s))) \<Longrightarrow> \<not> v_approved (parseVerification s)"
    using pv_no [OF st] tr pv_approved_dropWhile [of s] by simp
qed


lemma len_prefixes: "length ''DECISION:'' = 9" "length ''GUIDANCE:'' = 9" "length ''APPROVAL:'' = 9"
  "length ''CODE:'' = 5"
  by simp_all

lemma leading_prefixes_cases:
  assumes "(P, ty) \<in> set leading_prefixes"
  shows "(P = ''DECISION:'' \<and> ty = ''decision'') \<or> (P = ''CODE:'' \<and> ty = ''code'') \<or>
    (P = ''GUIDANCE:'' \<and> ty = ''guidance'') \<or> (P = ''APPROVAL:'' \<and> ty = ''approval'')"
  using assms unfolding leading_prefixes_def by simp

lemma leading_cases:
  assumes "(P, ty) \<in> set leading_prefixes" and "startsWith (trim (gc_body c)) P"
  shows "g_type (parse_comment c) = ty \<and>
         g_content (parse_comment c) = trim (drop (length P) (trim (gc_body c))) \<and>
         g_approved (parse_comment c) =
           (if ty = ''approval'' then Some (contains_yes (trim (drop (length P) (trim (gc_body c)))))
            else None)"
proof -
  from leading_prefixes_cases [OF assms(1)] show ?thesis
  proof (elim disjE conjE)
    assume P: "P = ''DECISION:''" and ty: "ty = ''decision''"
    have n: "ty \<noteq> ''approval''" unfolding ty by simp
    have l: "length P = 9" unfolding P by simp
    from assms(2) have "startsWith (trim (gc_body c)) ''DECISION:''" unfolding P .
    from gitea_decision [OF this] show ?thesis unfolding l using n ty by simp
  next
    assume P: "P = ''CODE:''" and ty: "ty = ''code''"
    have n: "ty \<noteq> ''approval''" unfolding ty by simp
    have l: "length P = 5" unfolding P by simp
    from assms(2) have "startsWith (trim (gc_body c)) ''CODE:''" unfolding P .
    from gitea_code [OF this] show ?thesis unfolding l using n ty by simp
  next
    assume P: "P = ''GUIDANCE:''" and ty: "ty = ''guidance''"
    have n: "ty \<noteq> ''approval''" unfolding ty by simp
    have l: "length P = 9" unfolding P by simp
    from assms(2) have "startsWith (trim (gc_body c)) ''GUIDANCE:''" unfolding P .
    from gitea_guidance [OF this] show ?thesis unfolding l using n ty by simp
  next
    assume P: "P = ''APPROVAL:''" and ty: "ty = ''approval''"
    have l: "length P = 9" unfolding P by simp
    from assms(2) have "startsWith (trim (gc_body c)) ''APPROVAL:''" unfolding P .
    from gitea_approval [OF this] show ?thesis unfolding l using ty by simp
  qed
qed

text \<open>
  Claim C10, as amended. The parsers agree only on unambiguous bodies. For a body that
  contains none of the five prefixes, \<open>GiteaClient\<close> and \<open>HumanLoopService\<close> both answer
  \<open>general\<close> with the trimmed body. For a body whose trimmed text starts with
  \<open>DECISION:\<close>, \<open>CODE:\<close>, \<open>GUIDANCE:\<close> or \<open>APPROVAL:\<close> and contains no prefix of
  higher priority, both assign the same type; if the body is a single line they also agree
  on the content and on the \<open>approved\<close> flag. On such a single-line approval whose
  text starts with \<open>yes\<close> (in any letter case) all three parsers approve, and when it
  starts with \<open>no\<close> and contains no \<open>yes\<close> all three reject.
\<close>

theorem parsers_agree_where_unambiguous:
  "(committed_prefix (trim (gc_body c)) = None \<longrightarrow>
      g_type (parse_comment c) = ''general'' \<and>
      rtype (parseHumanResponse (gc_body c)) = ''general'' \<and>
      g_content (parse_comment c) = content (parseHumanResponse (gc_body c))) \<and>
   ((P, ty) \<in> set leading_prefixes \<and> startsWith (trim (gc_body c)) P \<and>
    committed_prefix (trim (gc_body c)) = Some (P, ty) \<longrightarrow>
      g_type (parse_comment c) = ty \<and> rtype (parseHumanResponse (gc_body c)) = ty \<and>
      (CHR 0x0A \<notin> set (trim (gc_body c)) \<longrightarrow>
         g_content (parse_comment c) = content (parseHumanResponse (gc_body c)) \<and>
         g_approved (parse_comment c) = approved (parseHumanResponse (gc_body c)) \<and>
         (ty = ''approval'' \<and> ci_prefix ''yes'' (g_content (parse_comment c)) \<longrightarrow>
            g_approved (parse_comment c) = Some True \<and>
            v_approved (parseVerification (gc_body c))) \<and>
         (ty = ''approval'' \<and> ci_prefix ''no'' (g_content (parse_comment c)) \<and>
          \<not> contains_yes (g_content (parse_comment c)) \<longrightarrow>
            g_approved (parse_comment c) = Some False \<and>
            \<not> v_approved (parseVerification (gc_body c)))))"
proof (intro conjI impI)
  assume n: "committed_prefix (trim (gc_body c)) = None"
  from gitea_general [OF n] parse_uncommitted [OF n]
  show "g_type (parse_comment c) = ''general''"
    and "rtype (parseHumanResponse (gc_body c)) = ''general''"
    and "g_content (parse_comment c) = content (parseHumanResponse (gc_body c))"
    by simp_all
next
  assume h: "(P, ty) \<in> set leading_prefixes \<and> startsWith (trim (gc_body c)) P \<and>
    committed_prefix (trim (gc_body c)) = Some (P, ty)"
  then have g: "g_type (parse_comment c) = ty"
    "g_content (parse_comment c) = trim (drop (length P) (trim (gc_body c)))"
    "g_approved (parse_comment c) =
       (if ty = ''approval'' then Some (contains_yes (trim (drop (length P) (trim (gc_body c)))))
        else None)"
    using leading_cases [of P ty c] by simp_all
  from h have p: "rtype (parseHumanResponse (gc_body c)) = ty"
    "content (parseHumanResponse (gc_body c)) = extractStructuredContent (trim (gc_body c)) P"
    using parse_committed [of "gc_body c" P ty] by simp_all
  from h have a: "approved (parseHumanResponse (gc_body c)) =
     (if ty = ''approval'' then Some (contains_yes (extractStructuredContent (trim (gc_body c)) P))
      else None)"
    using parse_committed_approved [of "gc_body c" P ty] by simp
  show "g_type (parse_comment c) = ty" by (rule g(1))
  show "rtype (parseHumanResponse (gc_body c)) = ty" by (rule p(1))
  {
    assume l: "CHR 0x0A \<notin> set (trim (gc_body c))"
    from h have "startsWith (trim (trim (gc_body c))) P" by (simp add: trim_idem)
    then have e: "extractStructuredContent (trim (gc_body c)) P =
        trim (drop (length P) (trim (gc_body c)))"
      using l extract_single_line [of "trim (gc_body c)" P] by (simp add: trim_idem)
    show "g_content (parse_comment c) = content (parseHumanResponse (gc_body c))"
      using g(2) p(2) e by simp
    show "g_approved (parse_comment c) = approved (parseHumanResponse (gc_body c))"
      using g(3) a e by simp
  }
  {
    assume y: "ty = ''approval'' \<and> ci_prefix ''yes'' (g_content (parse_comment c))"
    with h leading_prefixes_cases [of P ty] have P: "P = ''APPROVAL:''" by simp
    with h have st: "startsWith (trim (gc_body c)) ''APPROVAL:''" by blast
    note ga = gitea_approval [OF st]
    from y ga have c: "ci_prefix ''yes'' (trim (drop 9 (trim (gc_body c))))" by simp
    then have "contains_yes (trim (drop 9 (trim (gc_body c))))"
      by (simp add: ci_prefix_yes_iff yes_at_contains)
    with ga show "g_approved (parse_comment c) = Some True" by simp
    from st c show "v_approved (parseVerification (gc_body c))" by (rule pv_raw(1))
  }
  {
    assume n: "ty = ''approval'' \<and> ci_prefix ''no'' (g_content (parse_comment c)) \<and>
          \<not> contains_yes (g_content (parse_comment c))"
    with h leading_prefixes_cases [of P ty] have P: "P = ''APPROVAL:''" by simp
    with h have st: "startsWith (trim (gc_body c)) ''APPROVAL:''" by blast
    note ga = gitea_approval [OF st]
    from n ga have c: "ci_prefix ''no'' (trim (drop 9 (trim (gc_body c))))" by simp
    from n ga show "g_approved (parse_comment c) = Some False" by simp
    from st c show "\<not> v_approved (parseVerification (gc_body c))" by (rule pv_raw(2))
  }
qed

text \<open>Claim C10 at an approval with surrounding white space and at a rejection.\<close>

theorem parsers_agree_where_unambiguous_witness:
  "g_approved (parse_comment \<lparr>gc_body = ''  APPROVAL: Yes, ship it '', gc_login = ''ann'',
      gc_created_at = ''t''\<rparr>) = Some True \<and>
   approved (parseHumanResponse ''  APPROVAL: Yes, ship it '') = Some True \<and>
   v_approved (parseVerification ''  APPROVAL: Yes, ship it '') \<and>
   g_approved (parse_comment \<lparr>gc_body = ''APPROVAL: no'', gc_login = ''ann'',
      gc_created_at = ''t''\<rparr>) = Some False \<and>
   approved (parseHumanResponse ''APPROVAL: no'') = Some False \<and>
   \<not> v_approved (parseVerification ''APPROVAL: no'')"
proof -
  let ?c = "\<lparr>gc_body = ''  APPROVAL: Yes, ship it '', gc_login = ''ann'', gc_created_at = ''t''\<rparr>"
  let ?d = "\<lparr>gc_body = ''APPROVAL: no'', gc_login = ''ann'', gc_created_at = ''t''\<rparr>"
  have c1: "(''APPROVAL:'', ''approval'') \<in> set leading_prefixes" by code_simp
  have c2: "startsWith (trim (gc_body ?c)) ''APPROVAL:''" by code_simp
  have c3: "committed_prefix (trim (gc_body ?c)) = Some (''APPROVAL:'', ''approval'')" by code_simp
  have c4: "CHR 0x0A \<notin> set (trim (gc_body ?c))" by code_simp
  have c5: "ci_prefix ''yes'' (g_content (parse_comment ?c))" by code_simp
  have d2: "startsWith (trim (gc_body ?d)) ''APPROVAL:''" by code_simp
  have d3: "committed_prefix (trim (gc_body ?d)) = Some (''APPROVAL:'', ''approval'')" by code_simp
  have d4: "CHR 0x0A \<notin> set (trim (gc_body ?d))" by code_simp
  have d5: "ci_prefix ''no'' (g_content (parse_comment ?d))" by code_simp
  have d6: "\<not> contains_yes (g_content (parse_comment ?d))" by code_simp
  from parsers_agree_where_unambiguous [of ?c "''APPROVAL:''" "''approval''"] c1 c2 c3 c4 c5
  have "g_approved (parse_comment ?c) = Some True \<and>
        approved (parseHumanResponse (gc_body ?c)) = Some True \<and>
        v_approved (parseVerification (gc_body ?c))"
    by metis
  moreover
  from parsers_agree_where_unambiguous [of ?d "''APPROVAL:''" "''approval''"] c1 d2 d3 d4 d5 d6
  have "g_approved (parse_comment ?d) = Some False \<and>
        approved (parseHumanResponse (gc_body ?d)) = Some False \<and>
        \<not> v_approved (parseVerification (gc_body ?d))"
    by metis
  ultimately show ?thesis by simp
qed

text \<open>Claim C10 as stated fails: a question is \<open>general\<close> for \<open>GiteaClient\<close>; a rejection
  whose feedback contains \<open>yes\<close> is approved by \<open>GiteaClient\<close> and rejected by
  \<open>HumanLoopService\<close>; and \<open>not yes\<close> is rejected by \<open>parseVerification\<close> and approved
  by \<open>HumanLoopService\<close>.\<close>

theorem parsers_agree_where_unambiguous_counterexample:
  "g_type (parse_comment \<lparr>gc_body = ''QUESTION: why?'', gc_login = ''ann'',
      gc_created_at = ''t''\<rparr>) = ''general'' \<and>
   rtype (parseHumanResponse ''QUESTION: why?'') = ''question'' \<and>
   g_approved (parse_comment \<lparr>gc_body = ''APPROVAL: No\<newline>FEEDBACK: yes, it is wrong'',
      gc_login = ''ann'', gc_created_at = ''t''\<rparr>) = Some True \<and>
   approved (parseHumanResponse ''APPROVAL: No\<newline>FEEDBACK: yes, it is wrong'') = Some False \<and>
   v_approved (parseVerification ''APPROVAL: not yes'') = False \<and>
   approved (parseHumanResponse ''APPROVAL: not yes'') = Some True"
  by code_simp

section \<open>The verification policy\<close>

















section \<open>The testing stage\<close>







section \<open>Requests for human input\<close>

text \<open>The decimal digits of a number determine it, so requests made at different times
  get different keys.\<close>

lemma dec_inj: "dec m = dec n \<Longrightarrow> m = n"
proof (induction m arbitrary: n rule: less_induct)
  case (less m)
  let ?D = "''0123456789''"
  have d: "distinct ?D" by simp
  have l: "length ?D = 10" by simp
  have ne: "dec k \<noteq> []" for k by (subst dec.simps) simp
  have la: "last (dec k) = ?D ! (k mod 10)" for k by (subst dec.simps) simp
  have bl: "butlast (dec k) = (if k < 10 then [] else dec (k div 10))" for k
    by (subst dec.simps) simp
  from less.prems have "last (dec m) = last (dec n)" by simp
  then have "?D ! (m mod 10) = ?D ! (n mod 10)" unfolding la .
  moreover have "m mod 10 < length ?D" "n mod 10 < length ?D" unfolding l by simp_all
  ultimately have md: "m mod 10 = n mod 10"
    using nth_eq_iff_index_eq [OF d] by blast
  from less.prems have "butlast (dec m) = butlast (dec n)" by simp
  then have b: "(if m < 10 then [] else dec (m div 10)) = (if n < 10 then [] else dec (n div 10))"
    unfolding bl .
  show ?case
  proof (cases "m < 10")
    case True
    with b ne [of "n div 10"] have "n < 10" by (auto split: if_splits)
    with True md show ?thesis by simp
  next
    case False
    with b ne [of "m div 10"] have n: "\<not> n < 10" by (auto split: if_splits)
    with False b have "dec (m div 10) = dec (n div 10)" by simp
    moreover from False have "m div 10 < m" by simp
    ultimately have "m div 10 = n div 10" by (rule less.IH [rotated])
    with md show ?thesis by (metis div_mult_mod_eq)
  qed
qed

lemma requestHumanInput_flat:
  "requestHumanInput env now task ctx w =
     (case extractRepositoryInfo (repository task) (metadata_repository task) of
        Inl e \<Rightarrow> (Inl e, w)
      | Inr (ow, nm) \<Rightarrow>
          (case issue_reply env (trace (sys w)) (CreateGiteaIssue ow nm (HumanInputRequest task ctx)) of
             Inl e \<Rightarrow>
               (Inl e, w\<lparr>sys := record_call (CreateGiteaIssue ow nm (HumanInputRequest task ctx)) (sys w)\<rparr>)
           | Inr iss \<Rightarrow>
               (Inr iss,
                w\<lparr>sys := record_call (CreateGiteaIssue ow nm (HumanInputRequest task ctx)) (sys w),
                  pendingRequests :=
                    AList.update (task_id task @ ''_'' @ dec now)
                      \<lparr>req_id = task_id task @ ''_'' @ dec now, req_taskId = task_id task,
                       req_agentId = ctx_agentId ctx, req_issue = iss, req_ctx = ctx,
                       createdAt = now, req_status = ''pending'', req_response = None,
                       respondedAt = None, cancelledAt = None, cancellationReason = None\<rparr>
                      (pendingRequests w)\<rparr>)))"
  by (simp add: requestHumanInput_def createHumanInputIssue_def and_then_def in_sys_def lift_def
      call_issue_def Let_def split: sum.splits prod.splits)

lemma requestHumanInput_stores:
  assumes "requestHumanInput env now task ctx w = (Inr iss, w')"
  shows "\<exists>ow nm.
           extractRepositoryInfo (repository task) (metadata_repository task) = Inr (ow, nm) \<and>
           sys w' = record_call (CreateGiteaIssue ow nm (HumanInputRequest task ctx)) (sys w) \<and>
           pendingRequests w' =
             AList.update (task_id task @ ''_'' @ dec now)
               \<lparr>req_id = task_id task @ ''_'' @ dec now, req_taskId = task_id task,
                req_agentId = ctx_agentId ctx, req_issue = iss, req_ctx = ctx,
                createdAt = now, req_status = ''pending'', req_response = None,
                respondedAt = None, cancelledAt = None, cancellationReason = None\<rparr>
               (pendingRequests w)"
  using assms unfolding requestHumanInput_flat
  by (auto split: sum.splits prod.splits)

lemma dec_1000: "dec 1000 = ''1000''" and dec_2000: "dec 2000 = ''2000''"
  by (simp_all add: dec.simps)

lemma extract_shop:
  "extractRepositoryInfo (Some shop_repository) None = Inr (Some ''acme'', Some ''shop'')"
  by code_simp

lemma one_pending_eq:
  "one_pending =
     \<lparr>pendingRequests =
        [(''T1_1000'',
          \<lparr>req_id = ''T1_1000'', req_taskId = ''T1'', req_agentId = Some ''A1'',
           req_issue = \<lparr>issue_number = 1\<rparr>, req_ctx = verification_ctx, createdAt = 1000,
           req_status = ''pending'', req_response = None, respondedAt = None,
           cancelledAt = None, cancellationReason = None\<rparr>)],
      sys = \<lparr>activeAgents = [''A1'' \<mapsto> claude_agent],
             trace = [CreateGiteaIssue (Some ''acme'') (Some ''shop'')
                        (HumanInputRequest login_task verification_ctx)]\<rparr>\<rparr>"
proof -
  have t: "repository login_task = Some shop_repository" "metadata_repository login_task = None"
    "task_id login_task = ''T1''"
    by (simp_all add: login_task_def)
  have c: "ctx_agentId verification_ctx = Some ''A1''" by (simp add: verification_ctx_def)
  show ?thesis
    unfolding one_pending_def requestHumanInput_flat t extract_shop
    by (simp add: ok_env_def empty_state_def record_call_def dec_1000 c)
qed

lemma two_pending_eq:
  "two_pending =
     \<lparr>pendingRequests =
        [(''T1_1000'',
          \<lparr>req_id = ''T1_1000'', req_taskId = ''T1'', req_agentId = Some ''A1'',
           req_issue = \<lparr>issue_number = 1\<rparr>, req_ctx = verification_ctx, createdAt = 1000,
           req_status = ''pending'', req_response = None, respondedAt = None,
           cancelledAt = None, cancellationReason = None\<rparr>),
         (''T1_2000'',
          \<lparr>req_id = ''T1_2000'', req_taskId = ''T1'', req_agentId = Some ''A1'',
           req_issue = \<lparr>issue_number = 2\<rparr>, req_ctx = verification_ctx, createdAt = 2000,
           req_status = ''pending'', req_response = None, respondedAt = None,
           cancelledAt = None, cancellationReason = None\<rparr>)],
      sys = \<lparr>activeAgents = [''A1'' \<mapsto> claude_agent],
             trace = [CreateGiteaIssue (Some ''acme'') (Some ''shop'')
                        (HumanInputRequest login_task verification_ctx),
                      CreateGiteaIssue (Some ''acme'') (Some ''shop'')
                        (HumanInputRequest login_task verification_ctx)]\<rparr>\<rparr>"
proof -
  have t: "repository login_task = Some shop_repository" "metadata_repository login_task = None"
    "task_id login_task = ''T1''"
    by (simp_all add: login_task_def)
  have c: "ctx_agentId verification_ctx = Some ''A1''" by (simp add: verification_ctx_def)
  show ?thesis
    unfolding two_pending_def requestHumanInput_flat t extract_shop one_pending_eq
    by (simp add: ok_env_def record_call_def dec_2000 c)
qed

lemma first_call:
  "requestHumanInput ok_env 1000 login_task verification_ctx empty_state =
     (Inr \<lparr>issue_number = 1\<rparr>, one_pending)"
proof (rule prod_eqI)
  have t: "repository login_task = Some shop_repository" "metadata_repository login_task = None"
    by (simp_all add: login_task_def)
  show "fst (requestHumanInput ok_env 1000 login_task verification_ctx empty_state) =
          fst (Inr \<lparr>issue_number = 1\<rparr>, one_pending)"
    unfolding requestHumanInput_flat t extract_shop by (simp add: ok_env_def empty_state_def)
  show "snd (requestHumanInput ok_env 1000 login_task verification_ctx empty_state) =
          snd (Inr \<lparr>issue_number = 1\<rparr>, one_pending)"
    by (simp add: one_pending_def)
qed

lemma second_call:
  "requestHumanInput ok_env 2000 login_task verification_ctx one_pending =
     (Inr \<lparr>issue_number = 2\<rparr>, two_pending)"
proof (rule prod_eqI)
  have t: "repository login_task = Some shop_repository" "metadata_repository login_task = None"
    by (simp_all add: login_task_def)
  show "fst (requestHumanInput ok_env 2000 login_task verification_ctx one_pending) =
          fst (Inr \<lparr>issue_number = 2\<rparr>, two_pending)"
    unfolding requestHumanInput_flat t extract_shop one_pending_eq by (simp add: ok_env_def)
  show "snd (requestHumanInput ok_env 2000 login_task verification_ctx one_pending) =
          snd (Inr \<lparr>issue_number = 2\<rparr>, two_pending)"
    by (simp add: two_pending_def)
qed

text \<open>
  Claim C1, as the code has it. \<open>requestHumanInput\<close> never looks for a request that is
  already pending. Every call that succeeds posts one issue, returns that issue and stores a
  request with status \<open>pending\<close> under the key made of the task id and the time of the call,
  leaving the requests under all other keys as they were. So two successful calls for the
  same task and context at different times leave two different pending requests, each with
  the issue its call returned, and post two issues.
\<close>

theorem every_request_is_new:
  "(requestHumanInput env now task ctx w = (Inr iss, w') \<longrightarrow>
      (\<exists>ow nm. sys w' = after_calls (sys w) [CreateGiteaIssue ow nm (HumanInputRequest task ctx)]) \<and>
      map_of (pendingRequests w') (task_id task @ ''_'' @ dec now) =
        Some \<lparr>req_id = task_id task @ ''_'' @ dec now, req_taskId = task_id task,
              req_agentId = ctx_agentId ctx, req_issue = iss, req_ctx = ctx,
              createdAt = now, req_status = ''pending'', req_response = None,
              respondedAt = None, cancelledAt = None, cancellationReason = None\<rparr> \<and>
      (\<forall>k. k \<noteq> task_id task @ ''_'' @ dec now \<longrightarrow>
           map_of (pendingRequests w') k = map_of (pendingRequests w) k)) \<and>
   (requestHumanInput env t1 task ctx w = (Inr i1, w1) \<and>
    requestHumanInput env t2 task ctx w1 = (Inr i2, w2) \<and> t1 \<noteq> t2 \<longrightarrow>
      (\<exists>r1 r2.
         map_of (pendingRequests w2) (task_id task @ ''_'' @ dec t1) = Some r1 \<and>
         map_of (pendingRequests w2) (task_id task @ ''_'' @ dec t2) = Some r2 \<and>
         req_id r1 \<noteq> req_id r2 \<and>
         req_status r1 = ''pending'' \<and> req_status r2 = ''pending'' \<and>
         req_taskId r1 = task_id task \<and> req_taskId r2 = task_id task \<and>
         req_ctx r1 = ctx \<and> req_ctx r2 = ctx \<and>
         req_issue r1 = i1 \<and> req_issue r2 = i2) \<and>
      (\<exists>ow nm. sys w2 = after_calls (sys w)
         [CreateGiteaIssue ow nm (HumanInputRequest task ctx),
          CreateGiteaIssue ow nm (HumanInputRequest task ctx)]))"
proof (intro conjI impI)
  assume a: "requestHumanInput env now task ctx w = (Inr iss, w')"
  from requestHumanInput_stores [OF a] obtain ow nm where
    s: "sys w' = record_call (CreateGiteaIssue ow nm (HumanInputRequest task ctx)) (sys w)" and
    p: "pendingRequests w' =
             AList.update (task_id task @ ''_'' @ dec now)
               \<lparr>req_id = task_id task @ ''_'' @ dec now, req_taskId = task_id task,
                req_agentId = ctx_agentId ctx, req_issue = iss, req_ctx = ctx,
                createdAt = now, req_status = ''pending'', req_response = None,
                respondedAt = None, cancelledAt = None, cancellationReason = None\<rparr>
               (pendingRequests w)"
    by (elim exE conjE)
  from s show "\<exists>ow nm. sys w' = after_calls (sys w) [CreateGiteaIssue ow nm (HumanInputRequest task ctx)]"
    by (intro exI [of _ ow] exI [of _ nm]) (simp add: record_call_def after_calls_def)
  show "map_of (pendingRequests w') (task_id task @ ''_'' @ dec now) =
        Some \<lparr>req_id = task_id task @ ''_'' @ dec now, req_taskId = task_id task,
              req_agentId = ctx_agentId ctx, req_issue = iss, req_ctx = ctx,
              createdAt = now, req_status = ''pending'', req_response = None,
              respondedAt = None, cancelledAt = None, cancellationReason = None\<rparr>"
    unfolding p by (simp add: update_conv')
  show "\<forall>k. k \<noteq> task_id task @ ''_'' @ dec now \<longrightarrow>
           map_of (pendingRequests w') k = map_of (pendingRequests w) k"
    unfolding p by (simp add: update_conv')
next
  assume a: "requestHumanInput env t1 task ctx w = (Inr i1, w1) \<and>
    requestHumanInput env t2 task ctx w1 = (Inr i2, w2) \<and> t1 \<noteq> t2"
  then have a1: "requestHumanInput env t1 task ctx w = (Inr i1, w1)"
    and a2: "requestHumanInput env t2 task ctx w1 = (Inr i2, w2)" and ne: "t1 \<noteq> t2"
    by simp_all
  let ?k1 = "task_id task @ ''_'' @ dec t1" and ?k2 = "task_id task @ ''_'' @ dec t2"
  let ?r1 = "\<lparr>req_id = ?k1, req_taskId = task_id task,
                req_agentId = ctx_agentId ctx, req_issue = i1, req_ctx = ctx,
                createdAt = t1, req_status = ''pending'', req_response = None,
                respondedAt = None, cancelledAt = None, cancellationReason = None\<rparr>"
  let ?r2 = "\<lparr>req_id = ?k2, req_taskId = task_id task,
                req_agentId = ctx_agentId ctx, req_issue = i2, req_ctx = ctx,
                createdAt = t2, req_status = ''pending'', req_response = None,
                respondedAt = None, cancelledAt = None, cancellationReason = None\<rparr>"
  from requestHumanInput_stores [OF a1] obtain ow nm where
    e1: "extractRepositoryInfo (repository task) (metadata_repository task) = Inr (ow, nm)" and
    s1: "sys w1 = record_call (CreateGiteaIssue ow nm (HumanInputRequest task ctx)) (sys w)" and
    p1: "pendingRequests w1 = AList.update ?k1 ?r1 (pendingRequests w)"
    by (elim exE conjE)
  from requestHumanInput_stores [OF a2] obtain ow' nm' where
    e2: "extractRepositoryInfo (repository task) (metadata_repository task) = Inr (ow', nm')" and
    s2: "sys w2 = record_call (CreateGiteaIssue ow' nm' (HumanInputRequest task ctx)) (sys w1)" and
    p2: "pendingRequests w2 = AList.update ?k2 ?r2 (pendingRequests w1)"
    by (elim exE conjE)
  from e1 e2 have same: "ow' = ow" "nm' = nm" by simp_all
  from ne have k: "?k1 \<noteq> ?k2" using dec_inj by auto
  have m1: "map_of (pendingRequests w2) ?k1 = Some ?r1"
    unfolding p2 p1 using k by (simp add: update_conv')
  have m2: "map_of (pendingRequests w2) ?k2 = Some ?r2"
    unfolding p2 p1 by (simp add: update_conv')
  show "\<exists>r1 r2.
         map_of (pendingRequests w2) ?k1 = Some r1 \<and>
         map_of (pendingRequests w2) ?k2 = Some r2 \<and>
         req_id r1 \<noteq> req_id r2 \<and>
         req_status r1 = ''pending'' \<and> req_status r2 = ''pending'' \<and>
         req_taskId r1 = task_id task \<and> req_taskId r2 = task_id task \<and>
         req_ctx r1 = ctx \<and> req_ctx r2 = ctx \<and>
         req_issue r1 = i1 \<and> req_issue r2 = i2"
    using m1 m2 k by (intro exI [of _ ?r1] exI [of _ ?r2]) simp
  show "\<exists>ow nm. sys w2 = after_calls (sys w)
         [CreateGiteaIssue ow nm (HumanInputRequest task ctx),
          CreateGiteaIssue ow nm (HumanInputRequest task ctx)]"
    unfolding s2 s1 same
    by (intro exI [of _ ow] exI [of _ nm]) (simp add: record_call_def after_calls_def)
qed

text \<open>Claim C1 at two requests for the verification of the login task.\<close>

theorem every_request_is_new_witness:
  "requestHumanInput ok_env 1000 login_task verification_ctx empty_state =
     (Inr \<lparr>issue_number = 1\<rparr>, one_pending) \<and>
   requestHumanInput ok_env 2000 login_task verification_ctx one_pending =
     (Inr \<lparr>issue_number = 2\<rparr>, two_pending) \<and>
   (1000 :: nat) \<noteq> 2000 \<and>
   (\<exists>r1 r2.
      map_of (pendingRequests two_pending) ''T1_1000'' = Some r1 \<and>
      map_of (pendingRequests two_pending) ''T1_2000'' = Some r2 \<and>
      req_id r1 \<noteq> req_id r2 \<and>
      req_status r1 = ''pending'' \<and> req_status r2 = ''pending'' \<and>
      req_issue r1 = \<lparr>issue_number = 1\<rparr> \<and> req_issue r2 = \<lparr>issue_number = 2\<rparr>)"
proof -
  have h: "requestHumanInput ok_env 1000 login_task verification_ctx empty_state =
             (Inr \<lparr>issue_number = 1\<rparr>, one_pending) \<and>
           requestHumanInput ok_env 2000 login_task verification_ctx one_pending =
             (Inr \<lparr>issue_number = 2\<rparr>, two_pending) \<and> (1000 :: nat) \<noteq> 2000"
    using first_call second_call by simp
  have t: "task_id login_task = ''T1''" by (simp add: login_task_def)
  note every_request_is_new [where env = ok_env and task = login_task and ctx = verification_ctx
      and ?t1.0 = 1000 and ?t2.0 = 2000 and w = empty_state and ?w1.0 = one_pending
      and ?w2.0 = two_pending and ?i1.0 = "\<lparr>issue_number = 1\<rparr>" and ?i2.0 = "\<lparr>issue_number = 2\<rparr>",
      THEN conjunct2, THEN mp, OF h, THEN conjunct1]
  then obtain r1 r2 where
    "map_of (pendingRequests two_pending) (task_id login_task @ ''_'' @ dec 1000) = Some r1"
    "map_of (pendingRequests two_pending) (task_id login_task @ ''_'' @ dec 2000) = Some r2"
    "req_id r1 \<noteq> req_id r2" "req_status r1 = ''pending''" "req_status r2 = ''pending''"
    "req_issue r1 = \<lparr>issue_number = 1\<rparr>" "req_issue r2 = \<lparr>issue_number = 2\<rparr>"
    by (elim exE conjE)
  then have "map_of (pendingRequests two_pending) ''T1_1000'' = Some r1 \<and>
      map_of (pendingRequests two_pending) ''T1_2000'' = Some r2 \<and>
      req_id r1 \<noteq> req_id r2 \<and>
      req_status r1 = ''pending'' \<and> req_status r2 = ''pending'' \<and>
      req_issue r1 = \<lparr>issue_number = 1\<rparr> \<and> req_issue r2 = \<lparr>issue_number = 2\<rparr>"
    by (simp add: t dec_1000 dec_2000)
  then have "\<exists>r1 r2.
      map_of (pendingRequests two_pending) ''T1_1000'' = Some r1 \<and>
      map_of (pendingRequests two_pending) ''T1_2000'' = Some r2 \<and>
      req_id r1 \<noteq> req_id r2 \<and>
      req_status r1 = ''pending'' \<and> req_status r2 = ''pending'' \<and>
      req_issue r1 = \<lparr>issue_number = 1\<rparr> \<and> req_issue r2 = \<lparr>issue_number = 2\<rparr>"
    by (intro exI [of _ r1] exI [of _ r2])
  with h show ?thesis by simp
qed

text \<open>
  Against claim C1 as stated (a second call returns the first request and posts nothing):
  a second request for the same task and the same verification checkpoint, made while the
  first one is pending, returns another issue and posts it, and two requests with status
  \<open>pending\<close> are stored.
\<close>

theorem every_request_is_new_counterexample:
  "fst (requestHumanInput ok_env 1000 login_task verification_ctx empty_state) =
     Inr \<lparr>issue_number = 1\<rparr> \<and>
   fst (requestHumanInput ok_env 2000 login_task verification_ctx one_pending) =
     Inr \<lparr>issue_number = 2\<rparr> \<and>
   map (\<lambda>(k, r). (k, req_taskId r, ctx_type (req_ctx r), req_status r))
       (pendingRequests two_pending) =
     [(''T1_1000'', ''T1'', Some ''verification'', ''pending''),
      (''T1_2000'', ''T1'', Some ''verification'', ''pending'')] \<and>
   trace (sys two_pending) =
     [CreateGiteaIssue (Some ''acme'') (Some ''shop'') (HumanInputRequest login_task verification_ctx),
      CreateGiteaIssue (Some ''acme'') (Some ''shop'') (HumanInputRequest login_task verification_ctx)]"
proof -
  have c: "ctx_type verification_ctx = Some ''verification''" by (simp add: verification_ctx_def)
  show ?thesis
    unfolding first_call second_call by (simp add: two_pending_eq c)
qed

section \<open>Resolving a request\<close>

text \<open>The parser of the human-loop service never answers with one of the three types the
  agent service acts on.\<close>

lemma rtype_not_dispatched:
  "rtype (parseHumanResponse t) \<noteq> ''clarification'' \<and>
   rtype (parseHumanResponse t) \<noteq> ''verification'' \<and>
   rtype (parseHumanResponse t) \<noteq> ''review_feedback''"
proof (cases "committed_prefix (trim t)")
  case None
  then show ?thesis by (simp add: parse_uncommitted)
next
  case (Some a)
  obtain P ty where a: "a = (P, ty)" by (cases a)
  from Some a have c: "committed_prefix (trim t) = Some (P, ty)" by simp
  then have "ty = ''decision'' \<or> ty = ''code'' \<or> ty = ''guidance'' \<or> ty = ''approval'' \<or>
    ty = ''question''"
    by (simp add: committed_cases split: if_splits)
  moreover from parse_committed [OF c] have "rtype (parseHumanResponse t) = ty" by simp
  ultimately show ?thesis by (elim disjE) simp_all
qed


lemma findPendingRequest_find:
  "findPendingRequest reqs taskId agentId = find (pending_for taskId agentId) reqs"
  by (simp add: findPendingRequest_def pending_for_def)

lemma agent_service_other_type:
  assumes "activeAgents s aid = Some a"
    and "hr_type resp \<noteq> ''clarification''" and "hr_type resp \<noteq> ''verification''"
    and "hr_type resp \<noteq> ''review_feedback''"
  shows "AgentService_processHumanResponse env now (Some aid) resp s =
           (Inr (resumed now (hr_content resp) a),
            store_agent aid (resumed now (hr_content resp) a) s)"
  using assms
  by (simp add: AgentService_processHumanResponse_def Let_def and_then_def return_def
      store_agent_def resumed_def)

lemma addConfirmationComment_flat:
  "addConfirmationComment env repo n p s =
     (Inr (), case repo of
                None \<Rightarrow> s
              | Some (ow, nm) \<Rightarrow> record_call (AddGiteaComment ow nm n (Confirmation p)) s)"
  by (simp add: addConfirmationComment_def try_catch_def throw_def return_def call_unit_def
      split: option.splits prod.splits sum.splits)

lemma processHumanResponse_none:
  "findPendingRequest (pendingRequests w) (rd_taskId rd) (rd_agentId rd) = None \<Longrightarrow>
   processHumanResponse env now rd w = (Inr None, w)"
  by (simp add: processHumanResponse_def)

lemma processHumanResponse_success:
  assumes "processHumanResponse env now rd w = (Inr (Some p), w')"
  shows "\<exists>k r. findPendingRequest (pendingRequests w) (rd_taskId rd) (rd_agentId rd) = Some (k, r) \<and>
           p = parseHumanResponse (rd_comment_body rd) \<and>
           pendingRequests w' =
             AList.delete (req_id r)
               (AList.update k
                  (r\<lparr>req_status := ''responded'',
                     req_response := Some (parseHumanResponse (rd_comment_body rd)),
                     respondedAt := Some now\<rparr>)
                  (pendingRequests w))"
  using assms
  by (auto simp: processHumanResponse_def and_then_def in_sys_def Let_def
      split: option.splits sum.splits prod.splits)

lemma processHumanResponse_found:
  assumes "findPendingRequest (pendingRequests w) (rd_taskId rd) (rd_agentId rd) = Some (k, r)"
    and "rd_agentId rd = Some aid" and "activeAgents (sys w) aid = Some a"
  shows "processHumanResponse env now rd w =
           (Inr (Some (parseHumanResponse (rd_comment_body rd))),
            w\<lparr>pendingRequests :=
                 AList.delete (req_id r)
                   (AList.update k
                      (r\<lparr>req_status := ''responded'',
                         req_response := Some (parseHumanResponse (rd_comment_body rd)),
                         respondedAt := Some now\<rparr>)
                      (pendingRequests w)),
              sys :=
                (case rd_repository rd of
                   None \<Rightarrow>
                     store_agent aid
                       (resumed now (content (parseHumanResponse (rd_comment_body rd))) a) (sys w)
                 | Some (ow, nm) \<Rightarrow>
                     record_call
                       (AddGiteaComment ow nm (rd_issueNumber rd)
                          (Confirmation (parseHumanResponse (rd_comment_body rd))))
                       (store_agent aid
                          (resumed now (content (parseHumanResponse (rd_comment_body rd))) a)
                          (sys w)))\<rparr>)"
proof -
  let ?p = "parseHumanResponse (rd_comment_body rd)"
  let ?resp = "\<lparr>hr_type = rtype ?p, hr_content = content ?p,
                    hr_taskId = rd_taskId rd, hr_issueNumber = rd_issueNumber rd,
                    hr_reviewComments = None\<rparr>"
  have "AgentService_processHumanResponse env now (Some aid) ?resp (sys w) =
           (Inr (resumed now (hr_content ?resp) a),
            store_agent aid (resumed now (hr_content ?resp) a) (sys w))"
    using assms(3) rtype_not_dispatched [of "rd_comment_body rd"]
    by (intro agent_service_other_type) simp_all
  then show ?thesis
    using assms(1,2)
    by (simp add: processHumanResponse_def and_then_def in_sys_def Let_def
        addConfirmationComment_flat split: option.splits prod.splits)
qed

lemma find_after_delete:
  assumes f: "find P reqs = Some (k, r)" and one: "length (filter P reqs) = 1"
  shows "find P (AList.delete k reqs) = None"
proof -
  from f have "(k, r) \<in> set reqs" and "P (k, r)"
    by (auto simp: find_Some_iff)
  then have "(k, r) \<in> set (filter P reqs)" by simp
  moreover from one obtain x where x: "filter P reqs = [x]"
    by (cases "filter P reqs") auto
  ultimately have e: "filter P reqs = [(k, r)]" by simp
  have "filter P (AList.delete k reqs) = filter (\<lambda>p. fst p \<noteq> k) (filter P reqs)"
    by (auto simp: AList.delete_eq intro: filter_cong)
  also have "\<dots> = []" unfolding e by simp
  finally have "filter P (AList.delete k reqs) = []" .
  then show ?thesis by (simp add: find_None_iff filter_empty_conv)
qed

lemma approve_fields:
  "rd_taskId approve_comment = ''T1''" "rd_agentId approve_comment = Some ''A1''"
  "rd_issueNumber approve_comment = Some 1" "rd_comment_body approve_comment = ''APPROVAL: Yes''"
  "rd_repository approve_comment = Some (Some ''acme'', Some ''shop'')"
  by (simp_all add: approve_comment_def)

lemma resolve_one_pending:
  "processHumanResponse ok_env 1500 approve_comment one_pending =
     (Inr (Some (parseHumanResponse ''APPROVAL: Yes'')),
      one_pending\<lparr>pendingRequests := [],
        sys := record_call
                 (AddGiteaComment (Some ''acme'') (Some ''shop'') (Some 1)
                    (Confirmation (parseHumanResponse ''APPROVAL: Yes'')))
                 (store_agent ''A1''
                    (resumed 1500 (content (parseHumanResponse ''APPROVAL: Yes'')) claude_agent)
                    (sys one_pending))\<rparr>)"
proof -
  let ?r = "\<lparr>req_id = ''T1_1000'', req_taskId = ''T1'', req_agentId = Some ''A1'',
           req_issue = \<lparr>issue_number = 1\<rparr>, req_ctx = verification_ctx, createdAt = 1000,
           req_status = ''pending'', req_response = None, respondedAt = None,
           cancelledAt = None, cancellationReason = None\<rparr>"
  have f: "findPendingRequest (pendingRequests one_pending) (rd_taskId approve_comment)
             (rd_agentId approve_comment) = Some (''T1_1000'', ?r)"
    by (simp add: one_pending_eq findPendingRequest_def approve_fields)
  have a: "activeAgents (sys one_pending) ''A1'' = Some claude_agent"
    by (simp add: one_pending_eq)
  have p: "pendingRequests one_pending = [(''T1_1000'', ?r)]" by (simp add: one_pending_eq)
  show ?thesis
    unfolding processHumanResponse_found [OF f approve_fields(2) a]
    by (simp add: approve_fields p)
qed

lemma resolve_two_pending:
  "processHumanResponse ok_env 1500 approve_comment two_pending =
     (Inr (Some (parseHumanResponse ''APPROVAL: Yes'')),
      two_pending\<lparr>pendingRequests :=
          [(''T1_2000'',
            \<lparr>req_id = ''T1_2000'', req_taskId = ''T1'', req_agentId = Some ''A1'',
             req_issue = \<lparr>issue_number = 2\<rparr>, req_ctx = verification_ctx, createdAt = 2000,
             req_status = ''pending'', req_response = None, respondedAt = None,
             cancelledAt = None, cancellationReason = None\<rparr>)],
        sys := record_call
                 (AddGiteaComment (Some ''acme'') (Some ''shop'') (Some 1)
                    (Confirmation (parseHumanResponse ''APPROVAL: Yes'')))
                 (store_agent ''A1''
                    (resumed 1500 (content (parseHumanResponse ''APPROVAL: Yes'')) claude_agent)
                    (sys two_pending))\<rparr>)"
proof -
  let ?r = "\<lparr>req_id = ''T1_1000'', req_taskId = ''T1'', req_agentId = Some ''A1'',
           req_issue = \<lparr>issue_number = 1\<rparr>, req_ctx = verification_ctx, createdAt = 1000,
           req_status = ''pending'', req_response = None, respondedAt = None,
           cancelledAt = None, cancellationReason = None\<rparr>"
  let ?r2 = "\<lparr>req_id = ''T1_2000'', req_taskId = ''T1'', req_agentId = Some ''A1'',
             req_issue = \<lparr>issue_number = 2\<rparr>, req_ctx = verification_ctx, createdAt = 2000,
             req_status = ''pending'', req_response = None, respondedAt = None,
             cancelledAt = None, cancellationReason = None\<rparr>"
  have f: "findPendingRequest (pendingRequests two_pending) (rd_taskId approve_comment)
             (rd_agentId approve_comment) = Some (''T1_1000'', ?r)"
    by (simp add: two_pending_eq findPendingRequest_def approve_fields)
  have a: "activeAgents (sys two_pending) ''A1'' = Some claude_agent"
    by (simp add: two_pending_eq)
  have p: "pendingRequests two_pending = [(''T1_1000'', ?r), (''T1_2000'', ?r2)]"
    by (simp add: two_pending_eq)
  show ?thesis
    unfolding processHumanResponse_found [OF f approve_fields(2) a]
    by (simp add: approve_fields p)
qed

lemma resolve_second_of_two:
  "fst (processHumanResponse ok_env 1600 approve_comment
          (snd (processHumanResponse ok_env 1500 approve_comment two_pending))) =
     Inr (Some (parseHumanResponse ''APPROVAL: Yes'')) \<and>
   pendingRequests (snd (processHumanResponse ok_env 1600 approve_comment
          (snd (processHumanResponse ok_env 1500 approve_comment two_pending)))) = []"
proof -
  let ?w = "snd (processHumanResponse ok_env 1500 approve_comment two_pending)"
  let ?r2 = "\<lparr>req_id = ''T1_2000'', req_taskId = ''T1'', req_agentId = Some ''A1'',
             req_issue = \<lparr>issue_number = 2\<rparr>, req_ctx = verification_ctx, createdAt = 2000,
             req_status = ''pending'', req_response = None, respondedAt = None,
             cancelledAt = None, cancellationReason = None\<rparr>"
  have p: "pendingRequests ?w = [(''T1_2000'', ?r2)]"
    unfolding resolve_two_pending by simp
  have f: "findPendingRequest (pendingRequests ?w) (rd_taskId approve_comment)
             (rd_agentId approve_comment) = Some (''T1_2000'', ?r2)"
    unfolding p by (simp add: findPendingRequest_def approve_fields)
  have a: "activeAgents (sys ?w) ''A1'' =
             Some (resumed 1500 (content (parseHumanResponse ''APPROVAL: Yes'')) claude_agent)"
    unfolding resolve_two_pending by (simp add: record_call_def store_agent_def)
  show ?thesis
    unfolding processHumanResponse_found [OF f approve_fields(2) a]
    by (simp add: approve_fields p)
qed

text \<open>
  Claim C3, as the code has it. When no pending request of the task and agent is stored,
  \<open>processHumanResponse\<close> returns \<open>null\<close>; it throws nothing and leaves the state as it
  is. After a request has been resolved, a second call for the same task and agent is such
  a call, provided the resolved request was the only pending one of that task and agent
  (and was stored under its own id, as \<open>requestHumanInput\<close> stores it).
\<close>

theorem second_resolve_returns_null:
  "(findPendingRequest (pendingRequests w) (rd_taskId rd) (rd_agentId rd) = None \<longrightarrow>
      processHumanResponse env now rd w = (Inr None, w)) \<and>
   (processHumanResponse env now rd w = (Inr (Some p), w') \<and>
    list_all (\<lambda>(k, r). req_id r = k) (pendingRequests w) \<and>
    length (filter (pending_for (rd_taskId rd) (rd_agentId rd)) (pendingRequests w)) = 1 \<and>
    rd_taskId rd' = rd_taskId rd \<and> rd_agentId rd' = rd_agentId rd \<longrightarrow>
      processHumanResponse env' now' rd' w' = (Inr None, w'))"
proof (intro conjI impI)
  assume "findPendingRequest (pendingRequests w) (rd_taskId rd) (rd_agentId rd) = None"
  then show "processHumanResponse env now rd w = (Inr None, w)"
    by (rule processHumanResponse_none)
next
  assume h: "processHumanResponse env now rd w = (Inr (Some p), w') \<and>
    list_all (\<lambda>(k, r). req_id r = k) (pendingRequests w) \<and>
    length (filter (pending_for (rd_taskId rd) (rd_agentId rd)) (pendingRequests w)) = 1 \<and>
    rd_taskId rd' = rd_taskId rd \<and> rd_agentId rd' = rd_agentId rd"
  then have ok: "processHumanResponse env now rd w = (Inr (Some p), w')"
    and ids: "list_all (\<lambda>(k, r). req_id r = k) (pendingRequests w)"
    and one: "length (filter (pending_for (rd_taskId rd) (rd_agentId rd)) (pendingRequests w)) = 1"
    and same: "rd_taskId rd' = rd_taskId rd" "rd_agentId rd' = rd_agentId rd"
    by simp_all
  from processHumanResponse_success [OF ok] obtain k r where
    f: "findPendingRequest (pendingRequests w) (rd_taskId rd) (rd_agentId rd) = Some (k, r)" and
    p: "pendingRequests w' =
             AList.delete (req_id r)
               (AList.update k
                  (r\<lparr>req_status := ''responded'',
                     req_response := Some (parseHumanResponse (rd_comment_body rd)),
                     respondedAt := Some now\<rparr>)
                  (pendingRequests w))"
    by (elim exE conjE)
  from f have fnd: "find (pending_for (rd_taskId rd) (rd_agentId rd)) (pendingRequests w) = Some (k, r)"
    by (simp add: findPendingRequest_find)
  then have "(k, r) \<in> set (pendingRequests w)" by (auto simp: find_Some_iff)
  with ids have "req_id r = k" by (auto simp: list_all_iff)
  with p have "pendingRequests w' = AList.delete k (pendingRequests w)"
    by (simp add: delete_update_same)
  with find_after_delete [OF fnd one]
  have "findPendingRequest (pendingRequests w') (rd_taskId rd') (rd_agentId rd') = None"
    by (simp add: findPendingRequest_find same)
  then show "processHumanResponse env' now' rd' w' = (Inr None, w')"
    by (rule processHumanResponse_none)
qed

text \<open>Claim C3 at the one pending request of the login task.\<close>

theorem second_resolve_returns_null_witness:
  "fst (processHumanResponse ok_env 1500 approve_comment one_pending) =
     Inr (Some (parseHumanResponse ''APPROVAL: Yes'')) \<and>
   list_all (\<lambda>(k, r). req_id r = k) (pendingRequests one_pending) \<and>
   length (filter (pending_for ''T1'' (Some ''A1'')) (pendingRequests one_pending)) = 1 \<and>
   processHumanResponse ok_env 1600 approve_comment
       (snd (processHumanResponse ok_env 1500 approve_comment one_pending)) =
     (Inr None, snd (processHumanResponse ok_env 1500 approve_comment one_pending))"
proof -
  let ?w = "snd (processHumanResponse ok_env 1500 approve_comment one_pending)"
  let ?p = "parseHumanResponse ''APPROVAL: Yes''"
  have 1: "fst (processHumanResponse ok_env 1500 approve_comment one_pending) = Inr (Some ?p)"
    unfolding resolve_one_pending by simp
  then have 2: "processHumanResponse ok_env 1500 approve_comment one_pending = (Inr (Some ?p), ?w)"
    by (metis prod.collapse)
  have 3: "list_all (\<lambda>(k, r). req_id r = k) (pendingRequests one_pending)"
    by (simp add: one_pending_eq)
  have 4: "length (filter (pending_for ''T1'' (Some ''A1'')) (pendingRequests one_pending)) = 1"
    by (simp add: one_pending_eq pending_for_def)
  have h: "processHumanResponse ok_env 1500 approve_comment one_pending = (Inr (Some ?p), ?w) \<and>
    list_all (\<lambda>(k, r). req_id r = k) (pendingRequests one_pending) \<and>
    length (filter (pending_for (rd_taskId approve_comment) (rd_agentId approve_comment))
              (pendingRequests one_pending)) = 1 \<and>
    rd_taskId approve_comment = rd_taskId approve_comment \<and>
    rd_agentId approve_comment = rd_agentId approve_comment"
    using 2 3 4 by (simp add: approve_fields)
  note second_resolve_returns_null [where env = ok_env and now = 1500 and rd = approve_comment
      and w = one_pending and p = ?p and w' = ?w and rd' = approve_comment and env' = ok_env
      and now' = 1600, THEN conjunct2, THEN mp, OF h]
  with 1 3 4 show ?thesis by simp
qed

text \<open>
  Against claim C3 as stated. With one pending request, the second call returns \<open>null\<close>
  (the value \<open>Inr None\<close>), it does not fail. With two pending requests of the same task
  and agent, the second call succeeds like the first and removes the second request.
\<close>

theorem second_resolve_returns_null_counterexample:
  "fst (processHumanResponse ok_env 1600 approve_comment
          (snd (processHumanResponse ok_env 1500 approve_comment one_pending))) = Inr None \<and>
   fst (processHumanResponse ok_env 1500 approve_comment two_pending) =
     Inr (Some (parseHumanResponse ''APPROVAL: Yes'')) \<and>
   map fst (pendingRequests (snd (processHumanResponse ok_env 1500 approve_comment two_pending))) =
     [''T1_2000''] \<and>
   fst (processHumanResponse ok_env 1600 approve_comment
          (snd (processHumanResponse ok_env 1500 approve_comment two_pending))) =
     Inr (Some (parseHumanResponse ''APPROVAL: Yes'')) \<and>
   pendingRequests (snd (processHumanResponse ok_env 1600 approve_comment
          (snd (processHumanResponse ok_env 1500 approve_comment two_pending)))) = []"
proof -
  have "processHumanResponse ok_env 1600 approve_comment
          (snd (processHumanResponse ok_env 1500 approve_comment one_pending)) =
        (Inr None, snd (processHumanResponse ok_env 1500 approve_comment one_pending))"
    unfolding resolve_one_pending
    by (intro processHumanResponse_none) (simp add: findPendingRequest_def)
  then have a: "fst (processHumanResponse ok_env 1600 approve_comment
          (snd (processHumanResponse ok_env 1500 approve_comment one_pending))) = Inr None"
    by simp
  have b: "fst (processHumanResponse ok_env 1500 approve_comment two_pending) =
     Inr (Some (parseHumanResponse ''APPROVAL: Yes''))"
    "map fst (pendingRequests (snd (processHumanResponse ok_env 1500 approve_comment two_pending))) =
     [''T1_2000'']"
    unfolding resolve_two_pending by simp_all
  from a b resolve_second_of_two show ?thesis by (intro conjI) simp_all
qed

section \<open>What becomes of the answer to a verification request\<close>

lemma processVerificationResponse_throws:
  "isl (fst (processVerificationResponse env aid agent resp s)) \<and>
   trace (snd (processVerificationResponse env aid agent resp s)) =
     trace s @
       (if \<not> v_approved (parseVerification (hr_content resp)) \<and>
           (agent_type agent = ''claude'' \<or> agent_type agent = ''openai'')
        then [QueryAgent (agent_id agent) (conversationHistory agent)
                (RevisionPrompt (map_option fullPlan (implementationPlan agent))
                   (v_feedback (parseVerification (hr_content resp))))]
        else [])"
  by (simp add: processVerificationResponse_def reviseImplementationPlan_def queryAgent_def
      Let_def throw_def and_then_def call_text_def record_call_def store_agent_def
      split: sum.splits)

lemma reject_fields:
  "rd_taskId reject_comment = ''T1''" "rd_agentId reject_comment = Some ''A1''"
  "rd_issueNumber reject_comment = Some 1"
  "rd_comment_body reject_comment = ''APPROVAL: No\<newline>FEEDBACK: redo with OAuth''"
  "rd_repository reject_comment = Some (Some ''acme'', Some ''shop'')"
  by (simp_all add: reject_comment_def approve_comment_def)

lemma reject_one_pending:
  "processHumanResponse ok_env 1500 reject_comment one_pending =
     (Inr (Some (parseHumanResponse ''APPROVAL: No\<newline>FEEDBACK: redo with OAuth'')),
      one_pending\<lparr>pendingRequests := [],
        sys := record_call
                 (AddGiteaComment (Some ''acme'') (Some ''shop'') (Some 1)
                    (Confirmation (parseHumanResponse ''APPROVAL: No\<newline>FEEDBACK: redo with OAuth'')))
                 (store_agent ''A1''
                    (resumed 1500
                       (content (parseHumanResponse ''APPROVAL: No\<newline>FEEDBACK: redo with OAuth''))
                       claude_agent)
                    (sys one_pending))\<rparr>)"
proof -
  let ?r = "\<lparr>req_id = ''T1_1000'', req_taskId = ''T1'', req_agentId = Some ''A1'',
           req_issue = \<lparr>issue_number = 1\<rparr>, req_ctx = verification_ctx, createdAt = 1000,
           req_status = ''pending'', req_response = None, respondedAt = None,
           cancelledAt = None, cancellationReason = None\<rparr>"
  have f: "findPendingRequest (pendingRequests one_pending) (rd_taskId reject_comment)
             (rd_agentId reject_comment) = Some (''T1_1000'', ?r)"
    by (simp add: one_pending_eq findPendingRequest_def reject_fields)
  have a: "activeAgents (sys one_pending) ''A1'' = Some claude_agent"
    by (simp add: one_pending_eq)
  have p: "pendingRequests one_pending = [(''T1_1000'', ?r)]" by (simp add: one_pending_eq)
  show ?thesis
    unfolding processHumanResponse_found [OF f reject_fields(2) a]
    by (simp add: reject_fields p)
qed

text \<open>
  Claim C2 against the code. The human-loop service hands the agent service the type its
  own parser found (\<open>approval\<close> for an answer to a verification request), and the agent
  service acts only on \<open>clarification\<close>, \<open>verification\<close> and \<open>review_feedback\<close>. So for
  every answer to a pending request of a known agent the only effects are: the answer is
  appended to the agent's conversation, the agent is set to \<open>working\<close> (its verification
  verdict and its plan stay as they were), the confirmation comment is posted and the
  request is removed. No branch is created and no plan is asked for. The handler meant for
  these answers, \<open>processVerificationResponse\<close>, would not do it either: it always throws,
  after at most one query for a revised plan.
\<close>

theorem verification_answer_not_acted_on:
  "(findPendingRequest (pendingRequests w) (rd_taskId rd) (rd_agentId rd) = Some (k, r) \<and>
    rd_agentId rd = Some aid \<and> activeAgents (sys w) aid = Some a \<longrightarrow>
      (\<exists>w'. processHumanResponse env now rd w =
               (Inr (Some (parseHumanResponse (rd_comment_body rd))), w') \<and>
            activeAgents (sys w') =
              (activeAgents (sys w))
                (aid \<mapsto> resumed now (content (parseHumanResponse (rd_comment_body rd))) a) \<and>
            trace (sys w') =
              trace (sys w) @
                (case rd_repository rd of
                   None \<Rightarrow> []
                 | Some (ow, nm) \<Rightarrow>
                     [AddGiteaComment ow nm (rd_issueNumber rd)
                        (Confirmation (parseHumanResponse (rd_comment_body rd)))]))) \<and>
   verificationResponse (resumed now c a) = verificationResponse a \<and>
   implementationPlan (resumed now c a) = implementationPlan a \<and>
   agent_status (resumed now c a) = ''working'' \<and>
   isl (fst (processVerificationResponse env aid agent resp s)) \<and>
   trace (snd (processVerificationResponse env aid agent resp s)) =
     trace s @
       (if \<not> v_approved (parseVerification (hr_content resp)) \<and>
           (agent_type agent = ''claude'' \<or> agent_type agent = ''openai'')
        then [QueryAgent (agent_id agent) (conversationHistory agent)
                (RevisionPrompt (map_option fullPlan (implementationPlan agent))
                   (v_feedback (parseVerification (hr_content resp))))]
        else [])"
proof (intro conjI impI)
  assume h: "findPendingRequest (pendingRequests w) (rd_taskId rd) (rd_agentId rd) = Some (k, r) \<and>
    rd_agentId rd = Some aid \<and> activeAgents (sys w) aid = Some a"
  from h have f: "findPendingRequest (pendingRequests w) (rd_taskId rd) (rd_agentId rd) = Some (k, r)"
    by (elim conjE)
  from h have i: "rd_agentId rd = Some aid" by (elim conjE)
  from h have g: "activeAgents (sys w) aid = Some a" by (elim conjE)
  let ?p = "parseHumanResponse (rd_comment_body rd)"
  show "\<exists>w'. processHumanResponse env now rd w = (Inr (Some ?p), w') \<and>
            activeAgents (sys w') = (activeAgents (sys w))(aid \<mapsto> resumed now (content ?p) a) \<and>
            trace (sys w') =
              trace (sys w) @
                (case rd_repository rd of
                   None \<Rightarrow> []
                 | Some (ow, nm) \<Rightarrow>
                     [AddGiteaComment ow nm (rd_issueNumber rd) (Confirmation ?p)])"
    unfolding processHumanResponse_found [OF f i g]
    by (simp add: record_call_def store_agent_def split: option.splits prod.splits)
next
  show "verificationResponse (resumed now c a) = verificationResponse a"
    "implementationPlan (resumed now c a) = implementationPlan a"
    "agent_status (resumed now c a) = ''working''"
    by (simp_all add: resumed_def)
next
  show "isl (fst (processVerificationResponse env aid agent resp s))"
    using processVerificationResponse_throws [of env aid agent resp s] by (rule conjunct1)
  show "trace (snd (processVerificationResponse env aid agent resp s)) =
     trace s @
       (if \<not> v_approved (parseVerification (hr_content resp)) \<and>
           (agent_type agent = ''claude'' \<or> agent_type agent = ''openai'')
        then [QueryAgent (agent_id agent) (conversationHistory agent)
                (RevisionPrompt (map_option fullPlan (implementationPlan agent))
                   (v_feedback (parseVerification (hr_content resp))))]
        else [])"
    using processVerificationResponse_throws [of env aid agent resp s] by (rule conjunct2)
qed

text \<open>Claim C2 at the approval of the one pending verification request.\<close>

theorem verification_answer_not_acted_on_witness:
  "findPendingRequest (pendingRequests one_pending) (rd_taskId approve_comment)
       (rd_agentId approve_comment) =
     Some (''T1_1000'',
       \<lparr>req_id = ''T1_1000'', req_taskId = ''T1'', req_agentId = Some ''A1'',
        req_issue = \<lparr>issue_number = 1\<rparr>, req_ctx = verification_ctx, createdAt = 1000,
        req_status = ''pending'', req_response = None, respondedAt = None,
        cancelledAt = None, cancellationReason = None\<rparr>) \<and>
   activeAgents (sys one_pending) ''A1'' = Some claude_agent \<and>
   (\<exists>w'. processHumanResponse ok_env 1500 approve_comment one_pending =
            (Inr (Some (parseHumanResponse ''APPROVAL: Yes'')), w') \<and>
          trace (sys w') =
            [CreateGiteaIssue (Some ''acme'') (Some ''shop'')
               (HumanInputRequest login_task verification_ctx),
             AddGiteaComment (Some ''acme'') (Some ''shop'') (Some 1)
               (Confirmation (parseHumanResponse ''APPROVAL: Yes''))])"
proof -
  let ?r = "\<lparr>req_id = ''T1_1000'', req_taskId = ''T1'', req_agentId = Some ''A1'',
        req_issue = \<lparr>issue_number = 1\<rparr>, req_ctx = verification_ctx, createdAt = 1000,
        req_status = ''pending'', req_response = None, respondedAt = None,
        cancelledAt = None, cancellationReason = None\<rparr>"
  let ?p = "parseHumanResponse ''APPROVAL: Yes''"
  have f: "findPendingRequest (pendingRequests one_pending) (rd_taskId approve_comment)
             (rd_agentId approve_comment) = Some (''T1_1000'', ?r)"
    by (simp add: one_pending_eq findPendingRequest_def approve_fields)
  have a: "activeAgents (sys one_pending) ''A1'' = Some claude_agent"
    by (simp add: one_pending_eq)
  have t: "trace (sys one_pending) =
     [CreateGiteaIssue (Some ''acme'') (Some ''shop'') (HumanInputRequest login_task verification_ctx)]"
    by (simp add: one_pending_eq)
  from f a have h: "findPendingRequest (pendingRequests one_pending) (rd_taskId approve_comment)
             (rd_agentId approve_comment) = Some (''T1_1000'', ?r) \<and>
      rd_agentId approve_comment = Some ''A1'' \<and> activeAgents (sys one_pending) ''A1'' = Some claude_agent"
    by (simp add: approve_fields)
  note verification_answer_not_acted_on [where w = one_pending and rd = approve_comment
      and k = "''T1_1000''" and r = ?r and aid = "''A1''" and a = claude_agent and env = ok_env
      and now = 1500, THEN conjunct1, THEN mp, OF h]
  then obtain w' where
    1: "processHumanResponse ok_env 1500 approve_comment one_pending =
          (Inr (Some (parseHumanResponse (rd_comment_body approve_comment))), w')" and
    2: "trace (sys w') =
              trace (sys one_pending) @
                (case rd_repository approve_comment of
                   None \<Rightarrow> []
                 | Some (ow, nm) \<Rightarrow>
                     [AddGiteaComment ow nm (rd_issueNumber approve_comment)
                        (Confirmation (parseHumanResponse (rd_comment_body approve_comment)))])"
    by (elim exE conjE)
  have "processHumanResponse ok_env 1500 approve_comment one_pending = (Inr (Some ?p), w') \<and>
          trace (sys w') =
            [CreateGiteaIssue (Some ''acme'') (Some ''shop'')
               (HumanInputRequest login_task verification_ctx),
             AddGiteaComment (Some ''acme'') (Some ''shop'') (Some 1) (Confirmation ?p)]"
    using 1 2 by (simp add: approve_fields t)
  then have "\<exists>w'. processHumanResponse ok_env 1500 approve_comment one_pending = (Inr (Some ?p), w') \<and>
          trace (sys w') =
            [CreateGiteaIssue (Some ''acme'') (Some ''shop'')
               (HumanInputRequest login_task verification_ctx),
             AddGiteaComment (Some ''acme'') (Some ''shop'') (Some 1) (Confirmation ?p)]"
    by (rule exI [of _ w'])
  with f a show ?thesis by (intro conjI)
qed

text \<open>
  The two inputs of claim C2 on the one pending verification request of task \<open>T1\<close>. The
  approval \<open>APPROVAL: Yes\<close> is parsed as an approval with \<open>approved = true\<close>, the rejection
  as one with \<open>approved = false\<close> and the feedback \<open>redo with OAuth\<close>. In both cases the only
  call made is the confirmation comment: no branch is created, no revised plan is asked
  for, no task status is sent; the agent is set to \<open>working\<close> with no verification verdict
  and no plan.
\<close>

theorem verification_answer_not_acted_on_counterexample:
  "rtype (parseHumanResponse ''APPROVAL: Yes'') = ''approval'' \<and>
   approved (parseHumanResponse ''APPROVAL: Yes'') = Some True \<and>
   fst (processHumanResponse ok_env 1500 approve_comment one_pending) =
     Inr (Some (parseHumanResponse ''APPROVAL: Yes'')) \<and>
   trace (sys (snd (processHumanResponse ok_env 1500 approve_comment one_pending))) =
     [CreateGiteaIssue (Some ''acme'') (Some ''shop'') (HumanInputRequest login_task verification_ctx),
      AddGiteaComment (Some ''acme'') (Some ''shop'') (Some 1)
        (Confirmation (parseHumanResponse ''APPROVAL: Yes''))] \<and>
   map_option (\<lambda>a. (agent_status a, verificationResponse a, implementationPlan a))
     (activeAgents (sys (snd (processHumanResponse ok_env 1500 approve_comment one_pending))) ''A1'') =
     Some (''working'', None, None) \<and>
   rtype (parseHumanResponse ''APPROVAL: No\<newline>FEEDBACK: redo with OAuth'') = ''approval'' \<and>
   approved (parseHumanResponse ''APPROVAL: No\<newline>FEEDBACK: redo with OAuth'') = Some False \<and>
   feedback (parseHumanResponse ''APPROVAL: No\<newline>FEEDBACK: redo with OAuth'') =
     Some ''redo with OAuth'' \<and>
   fst (processHumanResponse ok_env 1500 reject_comment one_pending) =
     Inr (Some (parseHumanResponse ''APPROVAL: No\<newline>FEEDBACK: redo with OAuth'')) \<and>
   trace (sys (snd (processHumanResponse ok_env 1500 reject_comment one_pending))) =
     [CreateGiteaIssue (Some ''acme'') (Some ''shop'') (HumanInputRequest login_task verification_ctx),
      AddGiteaComment (Some ''acme'') (Some ''shop'') (Some 1)
        (Confirmation (parseHumanResponse ''APPROVAL: No\<newline>FEEDBACK: redo with OAuth''))] \<and>
   map_option (\<lambda>a. (agent_status a, verificationResponse a, implementationPlan a))
     (activeAgents (sys (snd (processHumanResponse ok_env 1500 reject_comment one_pending))) ''A1'') =
     Some (''working'', None, None)"
proof -
  have p: "rtype (parseHumanResponse ''APPROVAL: Yes'') = ''approval''"
    "approved (parseHumanResponse ''APPROVAL: Yes'') = Some True"
    "rtype (parseHumanResponse ''APPROVAL: No\<newline>FEEDBACK: redo with OAuth'') = ''approval''"
    "approved (parseHumanResponse ''APPROVAL: No\<newline>FEEDBACK: redo with OAuth'') = Some False"
    "feedback (parseHumanResponse ''APPROVAL: No\<newline>FEEDBACK: redo with OAuth'') =
       Some ''redo with OAuth''"
    by code_simp+
  have t: "trace (sys one_pending) =
     [CreateGiteaIssue (Some ''acme'') (Some ''shop'') (HumanInputRequest login_task verification_ctx)]"
    by (simp add: one_pending_eq)
  have a: "agent_status (resumed n c claude_agent) = ''working''"
    "verificationResponse (resumed n c claude_agent) = None"
    "implementationPlan (resumed n c claude_agent) = None" for n c
    by (simp_all add: resumed_def claude_agent_def)
  have y: "fst (processHumanResponse ok_env 1500 approve_comment one_pending) =
     Inr (Some (parseHumanResponse ''APPROVAL: Yes''))"
    "trace (sys (snd (processHumanResponse ok_env 1500 approve_comment one_pending))) =
     [CreateGiteaIssue (Some ''acme'') (Some ''shop'') (HumanInputRequest login_task verification_ctx),
      AddGiteaComment (Some ''acme'') (Some ''shop'') (Some 1)
        (Confirmation (parseHumanResponse ''APPROVAL: Yes''))]"
    "map_option (\<lambda>a. (agent_status a, verificationResponse a, implementationPlan a))
     (activeAgents (sys (snd (processHumanResponse ok_env 1500 approve_comment one_pending))) ''A1'') =
     Some (''working'', None, None)"
    unfolding resolve_one_pending by (simp_all add: record_call_def store_agent_def t a)
  have n: "fst (processHumanResponse ok_env 1500 reject_comment one_pending) =
     Inr (Some (parseHumanResponse ''APPROVAL: No\<newline>FEEDBACK: redo with OAuth''))"
    "trace (sys (snd (processHumanResponse ok_env 1500 reject_comment one_pending))) =
     [CreateGiteaIssue (Some ''acme'') (Some ''shop'') (HumanInputRequest login_task verification_ctx),
      AddGiteaComment (Some ''acme'') (Some ''shop'') (Some 1)
        (Confirmation (parseHumanResponse ''APPROVAL: No\<newline>FEEDBACK: redo with OAuth''))]"
    "map_option (\<lambda>a. (agent_status a, verificationResponse a, implementationPlan a))
     (activeAgents (sys (snd (processHumanResponse ok_env 1500 reject_comment one_pending))) ''A1'') =
     Some (''working'', None, None)"
    unfolding reject_one_pending by (simp_all add: record_call_def store_agent_def t a)
  from p y n show ?thesis by (intro conjI)
qed

section \<open>Cleaning up old requests\<close>











end
